theory Spec2Isabelle
  imports Complex_Main
begin

section \<open>The audio engine of the rhythm pad (components/AudioEngine.ts)\<close>

text \<open>
  The class \<open>AudioEngine\<close> drives the Tone.js library. The engine's own fields form the
  record \<open>AudioEngine\<close>; the Tone.js objects it talks to (audio nodes, the global transport,
  the parts built for clips) are kept as records of the calls the engine makes on them;
  the clip objects of the caller live in a store and are passed by address. A method is
  a function from the world before the call to its outcome (\<open>Inl\<close> the thrown error, \<open>Inr\<close>
  the returned value) paired with the world after the call.
\<close>

subsection \<open>JavaScript numbers\<close>

text \<open>
  A JavaScript number is an IEEE 754 binary64 value: a finite double, given by the real
  number it denotes, an infinity, or NaN. The two zeros are not told apart; a division
  by zero takes the zero as positive.
\<close>

datatype number = Fin real | PInf | NInf | NaN

text \<open>Rounding a real to the nearest integer, ties to the even one.\<close>

definition rne :: "real \<Rightarrow> int" where
  "rne x = (let f = \<lfloor>x\<rfloor>; d = x - of_int f in
     if d < 1 / 2 then f else if 1 / 2 < d then f + 1 else if even f then f else f + 1)"

text \<open>\<open>ilog2 n x\<close> is the exponent \<open>e\<close> with \<open>2 powi e \<le> x < 2 powi (e + 1)\<close>, found in at
  most \<open>n\<close> halvings or doublings of a positive \<open>x\<close>.\<close>

fun ilog2 :: "nat \<Rightarrow> real \<Rightarrow> int" where
  "ilog2 0 x = 0"
| "ilog2 (Suc n) x =
     (if 2 \<le> x then ilog2 n (x / 2) + 1 else if x < 1 then ilog2 n (x * 2) - 1 else 0)"

text \<open>The exponent of the spacing of the doubles around \<open>x\<close>: 52 below the exponent of
  \<open>x\<close>, and \<open>-1074\<close> throughout the subnormal range.\<close>

definition quantum :: "real \<Rightarrow> int" where
  "quantum x = max (ilog2 2200 \<bar>x\<bar>) (- 1022) - 52"

text \<open>Rounding to the nearest multiple of the spacing, ties to even.\<close>

definition fl :: "real \<Rightarrow> real" where
  "fl x = (if x = 0 then 0 else of_int (rne (x / 2 powi quantum x)) * 2 powi quantum x)"

text \<open>The spacing of the doubles around \<open>x\<close>, its unit in the last place.\<close>

definition ulp :: "real \<Rightarrow> real" where
  "ulp x = 2 powi quantum x"

text \<open>The largest finite double, and the least magnitude that rounds to an infinity.\<close>

definition max_double :: real where
  "max_double = 2 ^ 1024 - 2 ^ 971"

definition overflow_threshold :: real where
  "overflow_threshold = 2 ^ 1024 - 2 ^ 970"

definition is_double :: "real \<Rightarrow> bool" where
  "is_double x = (\<bar>x\<bar> \<le> max_double \<and> fl x = x)"

text \<open>The result of an arithmetic operation whose exact value is \<open>x\<close>; also the value of
  a numeric literal of the source.\<close>

definition round_double :: "real \<Rightarrow> number" where
  "round_double x =
     (if overflow_threshold \<le> \<bar>x\<bar> then (if 0 < x then PInf else NInf) else Fin (fl x))"

fun js_neg :: "number \<Rightarrow> number" where
  "js_neg (Fin a) = Fin (- a)"
| "js_neg PInf = NInf"
| "js_neg NInf = PInf"
| "js_neg NaN = NaN"

fun js_add :: "number \<Rightarrow> number \<Rightarrow> number" where
  "js_add (Fin a) (Fin b) = round_double (a + b)"
| "js_add (Fin a) PInf = PInf"
| "js_add (Fin a) NInf = NInf"
| "js_add (Fin a) NaN = NaN"
| "js_add PInf b = (if b = NInf \<or> b = NaN then NaN else PInf)"
| "js_add NInf b = (if b = PInf \<or> b = NaN then NaN else NInf)"
| "js_add NaN b = NaN"

definition js_sub :: "number \<Rightarrow> number \<Rightarrow> number" where
  "js_sub a b = js_add a (js_neg b)"

text \<open>The sign of a number that is not NaN: \<open>-1\<close>, \<open>0\<close> or \<open>1\<close>.\<close>

fun js_sign :: "number \<Rightarrow> int" where
  "js_sign (Fin a) = (if a < 0 then - 1 else if a = 0 then 0 else 1)"
| "js_sign PInf = 1"
| "js_sign NInf = - 1"
| "js_sign NaN = 0"

text \<open>An infinity of the given sign; NaN for the sign 0.\<close>

definition signed_inf :: "int \<Rightarrow> number" where
  "signed_inf s = (if s = 0 then NaN else if s < 0 then NInf else PInf)"

fun js_mul :: "number \<Rightarrow> number \<Rightarrow> number" where
  "js_mul (Fin a) (Fin b) = round_double (a * b)"
| "js_mul (Fin a) PInf = signed_inf (js_sign (Fin a))"
| "js_mul (Fin a) NInf = signed_inf (- js_sign (Fin a))"
| "js_mul (Fin a) NaN = NaN"
| "js_mul PInf b = signed_inf (js_sign b)"
| "js_mul NInf b = signed_inf (- js_sign b)"
| "js_mul NaN b = NaN"

fun js_div :: "number \<Rightarrow> number \<Rightarrow> number" where
  "js_div (Fin a) (Fin b) =
     (if b = 0 then signed_inf (js_sign (Fin a)) else round_double (a / b))"
| "js_div (Fin a) PInf = Fin 0"
| "js_div (Fin a) NInf = Fin 0"
| "js_div (Fin a) NaN = NaN"
| "js_div PInf b = (case b of Fin y \<Rightarrow> (if y < 0 then NInf else PInf) | _ \<Rightarrow> NaN)"
| "js_div NInf b = (case b of Fin y \<Rightarrow> (if y < 0 then PInf else NInf) | _ \<Rightarrow> NaN)"
| "js_div NaN b = NaN"

definition js_trunc :: "real \<Rightarrow> int" where
  "js_trunc x = (if 0 \<le> x then \<lfloor>x\<rfloor> else \<lceil>x\<rceil>)"

text \<open>\<open>a % b\<close>: exact, with the sign of the dividend.\<close>

definition rem_real :: "real \<Rightarrow> real \<Rightarrow> real" where
  "rem_real a b = a - b * of_int (js_trunc (a / b))"

fun js_rem :: "number \<Rightarrow> number \<Rightarrow> number" where
  "js_rem (Fin a) (Fin b) = (if b = 0 then NaN else Fin (rem_real a b))"
| "js_rem (Fin a) PInf = Fin a"
| "js_rem (Fin a) NInf = Fin a"
| "js_rem (Fin a) NaN = NaN"
| "js_rem PInf b = NaN"
| "js_rem NInf b = NaN"
| "js_rem NaN b = NaN"

text \<open>\<open>a === b\<close>, \<open>a <= b\<close> and \<open>a < b\<close> on numbers.\<close>

definition js_eq :: "number \<Rightarrow> number \<Rightarrow> bool" where
  "js_eq a b = (a \<noteq> NaN \<and> a = b)"

fun js_le :: "number \<Rightarrow> number \<Rightarrow> bool" where
  "js_le (Fin a) (Fin b) = (a \<le> b)"
| "js_le (Fin a) PInf = True"
| "js_le (Fin a) NInf = False"
| "js_le (Fin a) NaN = False"
| "js_le PInf b = (b = PInf)"
| "js_le NInf b = (b \<noteq> NaN)"
| "js_le NaN b = False"


text \<open>\<open>Math.round\<close> rounds to the nearest integer, halves upwards; \<open>Math.abs\<close>.\<close>

fun Math_round :: "number \<Rightarrow> number" where
  "Math_round (Fin a) = Fin (of_int \<lfloor>a + 1 / 2\<rfloor>)"
| "Math_round a = a"

fun Math_abs :: "number \<Rightarrow> number" where
  "Math_abs (Fin a) = Fin \<bar>a\<bar>"
| "Math_abs NInf = PInf"
| "Math_abs a = a"

text \<open>\<open>Math.abs(evt.tick % 16)\<close>, the normalisation the pad component applies in
  \<open>handleSaveClip\<close> before it stores a clip.\<close>

definition handleSaveClip_tick :: "number \<Rightarrow> number" where
  "handleSaveClip_tick t = Math_abs (js_rem t (Fin 16))"

subsection \<open>Data model\<close>

datatype PadId = Kick | Snare | Hat | Bass | Lead | Fx

record QuantizedTrigger =
  trigger_tick :: number
  scheduledAt :: number

record LoopEvent =
  tick :: number
  padId :: PadId
  velocity :: number

record LoopClip =
  clip_id :: string
  title :: string
  author :: string
  clip_bpm :: number
  color :: string
  createdAt :: number
  events :: "LoopEvent list"
  likes :: number
  remixes :: number

text \<open>\<open>ActiveClip = LoopClip & { part: Tone.Part | null }\<close>; the part is a reference into
  the store of parts. Clip objects are held in a store and named by their address; a
  plain \<open>LoopClip\<close> object is a cell without a part.\<close>

record ActiveClip = LoopClip +
  part :: "nat option"

type_synonym ref = nat

definition GRID_RESOLUTION :: number where
  "GRID_RESOLUTION = Fin 16"

definition DEFAULT_BPM :: number where
  "DEFAULT_BPM = Fin 104"

subsection \<open>Tone.js objects, as the calls made on them\<close>

datatype Output = ToFilter | ToReverb | ToDistortion | ToLimiter | ToDestination

text \<open>An audio node (effect or synth): the target of its \<open>connect\<close>, the \<open>rampTo(value, time)\<close>
  calls on its parameter, the \<open>triggerAttackRelease(note, duration, time, velocity)\<close> calls
  (newest first), and how many times \<open>dispose()\<close> was called on it.\<close>

record ToneNode =
  connect :: "Output option"
  rampTo :: "(number \<times> number) list"
  triggerAttackRelease :: "(string option \<times> string \<times> number \<times> number) list"
  disposeCalls :: nat

definition new_node :: ToneNode where
  "new_node = \<lparr>connect = None, rampTo = [], triggerAttackRelease = [], disposeCalls = 0\<rparr>"

definition node_dispose :: "ToneNode \<Rightarrow> ToneNode" where
  "node_dispose n = n\<lparr>disposeCalls := Suc (disposeCalls n)\<rparr>"

text \<open>A \<open>Tone.Part\<close>: the \<open>[time, value]\<close> pairs it was built from, its settings, and the
  \<open>start\<close>, \<open>stop\<close> and \<open>dispose\<close> calls it received. Every part of this program is built
  by \<open>createClip\<close> with the same callback, \<open>part_callback\<close> below.\<close>

record Part =
  part_events :: "(number \<times> LoopEvent) list"
  loop :: bool
  loopEnd :: string
  humanize :: number
  startCalls :: "number list"
  stopCalls :: nat
  part_disposeCalls :: nat

text \<open>\<open>Tone.Transport\<close>: its position \<open>seconds\<close>, the current value of its \<open>bpm\<close> signal and
  the ramps requested on it, its loop settings, its \<open>start\<close> calls, and the callbacks
  registered with \<open>scheduleOnce\<close> that are still pending: the time, and the \<open>padId\<close> and
  \<open>velocity\<close> the closure captured.\<close>

record Transport =
  seconds :: number
  bpm_value :: number
  bpm_rampTo :: "(number \<times> number) list"
  transport_loop :: bool
  loopStart :: number
  transport_loopEnd :: string
  transport_start :: "string list"
  scheduleOnce :: "(number \<times> PadId \<times> number) list"

text \<open>\<open>Tone.Time("16n").toSeconds()\<close> and \<open>Tone.Time("1m").toSeconds()\<close>: Tone.js computes
  \<open>(60 / bpm) * beats\<close> at the transport's current tempo, with \<open>beats = 4 / 16\<close> for a
  sixteenth note and, in its default 4/4 metre (the engine never changes the time
  signature), \<open>beats = 4\<close> for a measure.\<close>

definition Time_16n :: "Transport \<Rightarrow> number" where
  "Time_16n t = js_mul (js_div (Fin 60) (bpm_value t)) (Fin (1 / 4))"

definition Time_1m :: "Transport \<Rightarrow> number" where
  "Time_1m t = js_mul (js_div (Fin 60) (bpm_value t)) (Fin 4)"

subsection \<open>The engine\<close>

record AudioEngine =
  initialized :: bool
  filter_node :: "ToneNode option"
  reverb :: "ToneNode option"
  distortion :: "ToneNode option"
  limiter :: "ToneNode option"
  kick :: "ToneNode option"
  snare :: "ToneNode option"
  hat :: "ToneNode option"
  bass :: "ToneNode option"
  lead :: "ToneNode option"
  fx :: "ToneNode option"
  bpm :: number

text \<open>The world: the engine, the number of \<open>init\<close> calls that are suspended at
  \<open>await Tone.start()\<close>, the transport, the store of parts, and the store of clip objects
  with the next free address.\<close>

record World =
  engine :: AudioEngine
  awaiting :: nat
  transport :: Transport
  parts :: "Part list"
  clips :: "ref \<Rightarrow> ActiveClip"
  next_clip :: ref

datatype error = Error string

text \<open>The error of \<open>ensureReady\<close>, which the specification calls EngineNotReady.\<close>

definition EngineNotReady :: error where
  "EngineNotReady = Error ''AudioEngine not initialised''"

text \<open>The field initialisers of the class.\<close>

definition new_AudioEngine :: AudioEngine where
  "new_AudioEngine =
     \<lparr>initialized = False, filter_node = None, reverb = None, distortion = None,
      limiter = None, kick = None, snare = None, hat = None, bass = None, lead = None,
      fx = None, bpm = DEFAULT_BPM\<rparr>"

definition ensureReady :: "AudioEngine \<Rightarrow> error + unit" where
  "ensureReady e = (if \<not> initialized e then Inl EngineNotReady else Inr ())"

text \<open>
  \<open>init\<close> is asynchronous. A call runs up to \<open>await Tone.start()\<close>: it returns at once when
  the engine is initialised, and is suspended otherwise (\<open>init_call\<close>, with \<open>None\<close> for a
  promise that is still pending). When \<open>Tone.start()\<close> settles, a suspended call resumes
  (\<open>init_settled\<close>): on a rejection \<open>Some err\<close> it rejects with the same error and has
  touched nothing; on success it runs the rest of the body (\<open>init_body\<close>) without testing
  the flag again. Other calls can run between the two steps.
\<close>

definition init_call :: "World \<Rightarrow> (error + unit) option \<times> World" where
  "init_call w =
     (if initialized (engine w) then (Some (Inr ()), w)
      else (None, w\<lparr>awaiting := Suc (awaiting w)\<rparr>))"

definition init_body :: "World \<Rightarrow> World" where
  "init_body w =
     w\<lparr>engine := (engine w)
          \<lparr>filter_node := Some (new_node\<lparr>connect := Some ToReverb\<rparr>),
           reverb := Some (new_node\<lparr>connect := Some ToDistortion\<rparr>),
           distortion := Some (new_node\<lparr>connect := Some ToLimiter\<rparr>),
           limiter := Some (new_node\<lparr>connect := Some ToDestination\<rparr>),
           kick := Some (new_node\<lparr>connect := Some ToFilter\<rparr>),
           snare := Some (new_node\<lparr>connect := Some ToFilter\<rparr>),
           hat := Some (new_node\<lparr>connect := Some ToFilter\<rparr>),
           bass := Some (new_node\<lparr>connect := Some ToFilter\<rparr>),
           lead := Some (new_node\<lparr>connect := Some ToFilter\<rparr>),
           fx := Some (new_node\<lparr>connect := Some ToFilter\<rparr>),
           initialized := True\<rparr>,
       transport := (transport w)
          \<lparr>bpm_value := bpm (engine w),
           transport_loop := True,
           loopStart := Fin 0,
           transport_loopEnd := ''1m'',
           transport_start := transport_start (transport w) @ [''+0.1'']\<rparr>\<rparr>"

text \<open>With no suspended call there is nothing to resume.\<close>

definition init_settled :: "error option \<Rightarrow> World \<Rightarrow> (error + unit) \<times> World" where
  "init_settled tone_start w =
     (if awaiting w = 0 then (Inr (), w)
      else case tone_start of
        Some err \<Rightarrow> (Inl err, w\<lparr>awaiting := awaiting w - 1\<rparr>)
      | None \<Rightarrow> (Inr (), init_body (w\<lparr>awaiting := awaiting w - 1\<rparr>)))"

text \<open>A call of \<open>init\<close> that runs to its end with nothing in between; the argument is the
  outcome of \<open>Tone.start()\<close>.\<close>

definition init :: "error option \<Rightarrow> World \<Rightarrow> (error + unit) \<times> World" where
  "init tone_start w =
     (case init_call w of
        (Some res, w') \<Rightarrow> (res, w')
      | (None, w') \<Rightarrow> init_settled tone_start w')"

definition dispose :: "World \<Rightarrow> (error + unit) \<times> World" where
  "dispose w =
     (Inr (),
      w\<lparr>engine := (engine w)
           \<lparr>kick := map_option node_dispose (kick (engine w)),
            snare := map_option node_dispose (snare (engine w)),
            hat := map_option node_dispose (hat (engine w)),
            bass := map_option node_dispose (bass (engine w)),
            lead := map_option node_dispose (lead (engine w)),
            fx := map_option node_dispose (fx (engine w)),
            filter_node := map_option node_dispose (filter_node (engine w)),
            reverb := map_option node_dispose (reverb (engine w)),
            distortion := map_option node_dispose (distortion (engine w)),
            limiter := map_option node_dispose (limiter (engine w)),
            initialized := False\<rparr>\<rparr>)"

definition node_rampTo :: "number \<Rightarrow> number \<Rightarrow> ToneNode \<Rightarrow> ToneNode" where
  "node_rampTo v t n = n\<lparr>rampTo := (v, t) # rampTo n\<rparr>"

definition setBpm :: "number \<Rightarrow> World \<Rightarrow> (error + unit) \<times> World" where
  "setBpm nextBpm w =
     (case ensureReady (engine w) of
        Inl err \<Rightarrow> (Inl err, w)
      | Inr _ \<Rightarrow>
          (Inr (),
           w\<lparr>engine := (engine w)\<lparr>bpm := nextBpm\<rparr>,
             transport := (transport w)
                \<lparr>bpm_rampTo := (nextBpm, round_double (2 / 10)) # bpm_rampTo (transport w)\<rparr>\<rparr>))"

definition setFilterFrequency :: "number \<Rightarrow> World \<Rightarrow> (error + unit) \<times> World" where
  "setFilterFrequency v w =
     (case ensureReady (engine w) of
        Inl err \<Rightarrow> (Inl err, w)
      | Inr _ \<Rightarrow>
          (Inr (),
           w\<lparr>engine := (engine w)
                \<lparr>filter_node :=
                   map_option (node_rampTo v (round_double (4 / 10))) (filter_node (engine w))\<rparr>\<rparr>))"

definition setReverbWet :: "number \<Rightarrow> World \<Rightarrow> (error + unit) \<times> World" where
  "setReverbWet v w =
     (case ensureReady (engine w) of
        Inl err \<Rightarrow> (Inl err, w)
      | Inr _ \<Rightarrow>
          (case reverb (engine w) of
             None \<Rightarrow> (Inr (), w)
           | Some r \<Rightarrow>
               (Inr (),
                w\<lparr>engine := (engine w)
                     \<lparr>reverb := Some (node_rampTo v (round_double (4 / 10)) r)\<rparr>\<rparr>)))"

text \<open>The quantisation inside \<open>triggerPad\<close>: the constants \<open>nextTickSeconds\<close> and \<open>tick\<close>,
  as functions of \<open>now\<close> and \<open>subdivision\<close>. Every operation is the one on doubles.\<close>

definition nextTickSeconds :: "number \<Rightarrow> number \<Rightarrow> number" where
  "nextTickSeconds now subdivision =
     (if js_eq (js_rem now subdivision) (Fin 0) then now
      else js_add now (js_sub subdivision (js_rem now subdivision)))"

definition tick_of :: "number \<Rightarrow> number \<Rightarrow> number" where
  "tick_of now subdivision =
     js_rem (Math_round (js_div (nextTickSeconds now subdivision) subdivision)) GRID_RESOLUTION"

text \<open>\<open>triggerPad(padId, velocity = 1)\<close>: an omitted velocity is \<open>None\<close>.\<close>

definition triggerPad ::
  "PadId \<Rightarrow> number option \<Rightarrow> World \<Rightarrow> (error + QuantizedTrigger) \<times> World" where
  "triggerPad p velocity_arg w =
     (case ensureReady (engine w) of
        Inl err \<Rightarrow> (Inl err, w)
      | Inr _ \<Rightarrow>
          (let v = (case velocity_arg of None \<Rightarrow> Fin 1 | Some x \<Rightarrow> x);
               subdivision = Time_16n (transport w);
               now = seconds (transport w);
               next = nextTickSeconds now subdivision;
               t = tick_of now subdivision
           in (Inr \<lparr>trigger_tick = t, scheduledAt = next\<rparr>,
               w\<lparr>transport := (transport w)
                    \<lparr>scheduleOnce := scheduleOnce (transport w) @ [(next, p, v)]\<rparr>\<rparr>)))"

text \<open>The \<open>[time, event]\<close> pairs \<open>createClip\<close> maps the events of a clip to.\<close>

definition scheduled :: "number \<Rightarrow> LoopEvent list \<Rightarrow> (number \<times> LoopEvent) list" where
  "scheduled measureSeconds evs =
     map (\<lambda>evt. (js_mul (js_div (js_rem (tick evt) GRID_RESOLUTION) GRID_RESOLUTION)
                    measureSeconds, evt)) evs"

text \<open>\<open>createClip\<close> is given the address of the source clip. It reads the clip, builds and
  starts a part, and returns the address of a new object \<open>{ ...source, part }\<close>: a copy of
  the fields of the source with the part added. It assigns to no field of the source.\<close>

definition createClip :: "ref \<Rightarrow> World \<Rightarrow> (error + ref) \<times> World" where
  "createClip source w =
     (case ensureReady (engine w) of
        Inl err \<Rightarrow> (Inl err, w)
      | Inr _ \<Rightarrow>
          (let measureSeconds = Time_1m (transport w);
               p = \<lparr>part_events = scheduled measureSeconds (events (clips w source)),
                    loop = True, loopEnd = ''1m'', humanize = round_double (1 / 100),
                    startCalls = [Fin 0], stopCalls = 0, part_disposeCalls = 0\<rparr>;
               activeClip = (clips w source)\<lparr>part := Some (length (parts w))\<rparr>
           in (Inr (next_clip w),
               w\<lparr>parts := parts w @ [p],
                 clips := (clips w)(next_clip w := activeClip),
                 next_clip := Suc (next_clip w)\<rparr>)))"

definition part_stop_dispose :: "Part \<Rightarrow> Part" where
  "part_stop_dispose p =
     p\<lparr>stopCalls := Suc (stopCalls p), part_disposeCalls := Suc (part_disposeCalls p)\<rparr>"

text \<open>\<open>stopClip\<close> is given the address of the handle and has no readiness check. A part
  reference that names no part of the store cannot arise in the program; the model
  leaves the world as it is there.\<close>

definition stopClip :: "ref \<Rightarrow> World \<Rightarrow> (error + unit) \<times> World" where
  "stopClip activeClip w =
     (case part (clips w activeClip) of
        None \<Rightarrow> (Inr (), w)
      | Some i \<Rightarrow>
          (if i < length (parts w)
           then (Inr (), w\<lparr>parts := (parts w)[i := part_stop_dispose (parts w ! i)]\<rparr>)
           else (Inr (), w)))"

definition node_trigger ::
  "string option \<Rightarrow> string \<Rightarrow> number \<Rightarrow> number \<Rightarrow> ToneNode \<Rightarrow> ToneNode" where
  "node_trigger note dur time vel n =
     n\<lparr>triggerAttackRelease := (note, dur, time, vel) # triggerAttackRelease n\<rparr>"

fun playInstrument :: "PadId \<Rightarrow> number \<Rightarrow> number \<Rightarrow> AudioEngine \<Rightarrow> AudioEngine" where
  "playInstrument Kick time vel e =
     e\<lparr>kick := map_option (node_trigger (Some ''C1'') ''8n'' time vel) (kick e)\<rparr>"
| "playInstrument Snare time vel e =
     e\<lparr>snare := map_option (node_trigger None ''8n'' time vel) (snare e)\<rparr>"
| "playInstrument Hat time vel e =
     e\<lparr>hat := map_option (node_trigger None ''16n'' time vel) (hat e)\<rparr>"
| "playInstrument Bass time vel e =
     e\<lparr>bass := map_option
        (node_trigger (Some ''C2'') ''8n'' time (js_mul vel (round_double (9 / 10)))) (bass e)\<rparr>"
| "playInstrument Lead time vel e =
     e\<lparr>lead := map_option
        (node_trigger (Some ''C4'') ''8n'' time (js_mul vel (round_double (8 / 10)))) (lead e)\<rparr>"
| "playInstrument Fx time vel e =
     e\<lparr>fx := map_option
        (node_trigger (Some ''G4'') ''8n'' time (js_mul vel (round_double (6 / 10)))) (fx e)\<rparr>"


subsection \<open>Tone.js running the callbacks\<close>

text \<open>The transport running a pending \<open>scheduleOnce\<close> callback at its time: the callback
  calls \<open>playInstrument\<close> with the captured \<open>padId\<close> and \<open>velocity\<close>, and the registration is
  spent. A registration that is not pending does not run.\<close>

definition fire_once :: "number \<times> PadId \<times> number \<Rightarrow> World \<Rightarrow> World" where
  "fire_once ev w =
     (if ev \<in> set (scheduleOnce (transport w))
      then (case ev of (time, p, v) \<Rightarrow>
              w\<lparr>engine := playInstrument p time v (engine w),
                transport := (transport w)
                   \<lparr>scheduleOnce := remove1 ev (scheduleOnce (transport w))\<rparr>\<rparr>)
      else w)"




subsection \<open>Sequences of calls on one engine\<close>

text \<open>\<open>Init\<close> is a call of \<open>init\<close> up to its \<open>await\<close>; \<open>Settle\<close> is \<open>Tone.start()\<close> settling
  for a suspended call.\<close>

datatype Call =
    Init
  | Settle "error option"
  | Dispose
  | SetBpm number
  | SetFilterFrequency number
  | SetReverbWet number
  | TriggerPad PadId "number option"
  | CreateClip ref
  | StopClip ref

text \<open>The world after a call, whether it returned or threw.\<close>

fun call :: "Call \<Rightarrow> World \<Rightarrow> World" where
  "call Init w = snd (init_call w)"
| "call (Settle r) w = snd (init_settled r w)"
| "call Dispose w = snd (dispose w)"
| "call (SetBpm b) w = snd (setBpm b w)"
| "call (SetFilterFrequency v) w = snd (setFilterFrequency v w)"
| "call (SetReverbWet v) w = snd (setReverbWet v w)"
| "call (TriggerPad p v) w = snd (triggerPad p v w)"
| "call (CreateClip c) w = snd (createClip c w)"
| "call (StopClip a) w = snd (stopClip a w)"

fun calls :: "Call list \<Rightarrow> World \<Rightarrow> World" where
  "calls [] w = w"
| "calls (c # cs) w = calls cs (call c w)"

subsection \<open>Concrete worlds\<close>

text \<open>A transport nothing has been done with, at position 0 and Tone.js's default tempo.\<close>

definition idle_transport :: Transport where
  "idle_transport =
     \<lparr>seconds = Fin 0, bpm_value = Fin 120, bpm_rampTo = [], transport_loop = False,
      loopStart = Fin 0, transport_loopEnd = ''4m'', transport_start = [], scheduleOnce = []\<rparr>"

text \<open>A clip with the events (0, kick, 1.0), (4, snare, 0.9), (8, kick, 1.0).\<close>

definition example_clip :: LoopClip where
  "example_clip =
     \<lparr>clip_id = ''example'', title = ''Example'', author = ''You'', clip_bpm = Fin 104,
      color = ''#ff6ac1'', createdAt = Fin 0,
      events = [\<lparr>tick = Fin 0, padId = Kick, velocity = Fin 1\<rparr>,
                \<lparr>tick = Fin 4, padId = Snare, velocity = round_double (9 / 10)\<rparr>,
                \<lparr>tick = Fin 8, padId = Kick, velocity = Fin 1\<rparr>],
      likes = Fin 0, remixes = Fin 0\<rparr>"

text \<open>A stored clip whose only event has the tick \<open>-1\<close>.\<close>

definition negative_clip :: LoopClip where
  "negative_clip =
     example_clip\<lparr>events := [\<lparr>tick = Fin (- 1), padId = Kick, velocity = Fin 1\<rparr>]\<rparr>"

text \<open>The clip store of the caller: the example clip at address 0, the clip with the
  negative tick at address 1, both plain clips without a part.\<close>

definition example_ref :: ref where
  "example_ref = 0"

definition negative_ref :: ref where
  "negative_ref = 1"

definition library :: "ref \<Rightarrow> ActiveClip" where
  "library =
     (\<lambda>a. LoopClip.extend example_clip \<lparr>part = None\<rparr>)
       (negative_ref := LoopClip.extend negative_clip \<lparr>part = None\<rparr>)"

definition new_world :: World where
  "new_world =
     \<lparr>engine = new_AudioEngine, awaiting = 0, transport = idle_transport, parts = [],
      clips = library, next_clip = 2\<rparr>"

text \<open>The world once \<open>init\<close> has run on a new engine and the transport has reached
  position \<open>s\<close>.\<close>

definition ready_at :: "real \<Rightarrow> World" where
  "ready_at s =
     (let w = snd (init None new_world) in w\<lparr>transport := (transport w)\<lparr>seconds := Fin s\<rparr>\<rparr>)"

text \<open>The sixteenth note and the measure at 104 bpm, as doubles: 0.14423076923076922
  and 2.3076923076923075 seconds.\<close>

definition sixteenth_104 :: real where
  "sixteenth_104 = 2598230554252209 / 18014398509481984"

definition measure_104 :: real where
  "measure_104 = 2598230554252209 / 1125899906842624"

text \<open>The ten audio nodes an engine holds, in the order \<open>dispose\<close> visits them, and the
  ten nodes \<open>init\<close> builds.\<close>

definition nodes :: "AudioEngine \<Rightarrow> ToneNode option list" where
  "nodes e = [kick e, snare e, hat e, bass e, lead e, fx e,
              filter_node e, reverb e, distortion e, limiter e]"

definition built_nodes :: "ToneNode option list" where
  "built_nodes =
     [Some (new_node\<lparr>connect := Some ToFilter\<rparr>), Some (new_node\<lparr>connect := Some ToFilter\<rparr>),
      Some (new_node\<lparr>connect := Some ToFilter\<rparr>), Some (new_node\<lparr>connect := Some ToFilter\<rparr>),
      Some (new_node\<lparr>connect := Some ToFilter\<rparr>), Some (new_node\<lparr>connect := Some ToFilter\<rparr>),
      Some (new_node\<lparr>connect := Some ToReverb\<rparr>), Some (new_node\<lparr>connect := Some ToDistortion\<rparr>),
      Some (new_node\<lparr>connect := Some ToLimiter\<rparr>), Some (new_node\<lparr>connect := Some ToDestination\<rparr>)]"

text \<open>The address \<open>createClip\<close> returns in a world whose clip store holds the two clips
  above.\<close>

definition example_handle :: ref where
  "example_handle = 2"

section \<open>Properties\<close>

subsection \<open>The exponent search\<close>

lemma ilog2_numeral:
  "ilog2 (numeral k) x =
     (if 2 \<le> x then ilog2 (pred_numeral k) (x / 2) + 1
      else if x < 1 then ilog2 (pred_numeral k) (x * 2) - 1 else 0)"
  by (simp add: numeral_eq_Suc)

lemma ilog2_eq:
  "2 powi e \<le> x \<Longrightarrow> x < 2 powi (e + 1) \<Longrightarrow> \<bar>e\<bar> \<le> int n \<Longrightarrow> ilog2 n x = e"
proof (induction n arbitrary: x e)
  case 0
  then show ?case by simp
next
  case (Suc n)
  show ?case
  proof (cases "2 \<le> x")
    case True
    have "0 < e"
    proof (rule ccontr)
      assume "\<not> 0 < e"
      then have "e + 1 \<le> 1" by simp
      then have "(2::real) powi (e + 1) \<le> 2 powi 1" by (intro power_int_increasing) simp_all
      with Suc.prems(2) True show False by simp
    qed
    have a: "2 powi (e - 1) \<le> x / 2" using Suc.prems(1) by (simp add: power_int_diff)
    have b: "x / 2 < 2 powi (e - 1 + 1)" using Suc.prems(2) by (simp add: power_int_add)
    have "ilog2 n (x / 2) = e - 1" using \<open>0 < e\<close> Suc.prems(3) by (intro Suc.IH a b) simp
    with True show ?thesis by simp
  next
    case False
    show ?thesis
    proof (cases "x < 1")
      case True
      have "e < 0"
      proof (rule ccontr)
        assume "\<not> e < 0"
        then have "(2::real) powi 0 \<le> 2 powi e" by (intro power_int_increasing) simp_all
        with Suc.prems(1) True show False by simp
      qed
      have a: "2 powi (e + 1) \<le> x * 2" using Suc.prems(1) by (simp add: power_int_add)
      have b: "x * 2 < 2 powi (e + 1 + 1)" using Suc.prems(2) by (simp add: power_int_add)
      have "ilog2 n (x * 2) = e + 1" using \<open>e < 0\<close> Suc.prems(3) by (intro Suc.IH a b) simp
      with True False show ?thesis by simp
    next
      case x: False
      have "e = 0"
      proof (rule ccontr)
        assume "e \<noteq> 0"
        then consider "e \<le> - 1" | "1 \<le> e" by linarith
        then show False
        proof cases
          case 1
          then have "e + 1 \<le> 0" by simp
          then have "(2::real) powi (e + 1) \<le> 2 powi 0" by (intro power_int_increasing) simp_all
          with Suc.prems(2) x show False by simp
        next
          case 2
          then have "(2::real) powi 1 \<le> 2 powi e" by (intro power_int_increasing) simp_all
          with Suc.prems(1) False show False by simp
        qed
      qed
      with False x show ?thesis by simp
    qed
  qed
qed

lemma ilog2_le_0: "x < 2 \<Longrightarrow> ilog2 n x \<le> 0"
proof (induction n arbitrary: x)
  case 0
  then show ?case by simp
next
  case (Suc n)
  show ?case
  proof (cases "x < 1")
    case True
    then have "ilog2 n (x * 2) \<le> 0" by (intro Suc.IH) simp
    with True show ?thesis by simp
  next
    case False
    with Suc.prems show ?thesis by simp
  qed
qed

lemma ilog2_small:
  "x < 2 powi e \<Longrightarrow> e \<le> 0 \<Longrightarrow> 1 - e \<le> int n \<Longrightarrow> ilog2 n x \<le> e - 1"
proof (induction n arbitrary: x e)
  case 0
  then show ?case by simp
next
  case (Suc n)
  have "(2::real) powi e \<le> 2 powi 0" using Suc.prems(2) by (intro power_int_increasing) simp_all
  then have x1: "x < 1" using Suc.prems(1) by simp
  show ?case
  proof (cases "e = 0")
    case True
    have "ilog2 n (x * 2) \<le> 0" using x1 by (intro ilog2_le_0) simp
    with x1 True show ?thesis by simp
  next
    case False
    have "x * 2 < 2 powi (e + 1)" using Suc.prems(1) by (simp add: power_int_add)
    then have "ilog2 n (x * 2) \<le> e + 1 - 1" using False Suc.prems(2,3) by (intro Suc.IH) simp_all
    with x1 show ?thesis by simp
  qed
qed

lemma binade_exists:
  fixes x :: real
  assumes "0 < x"
  shows "\<exists>e. 2 powi e \<le> x \<and> x < 2 powi (e + 1)"
proof -
  define e where "e = \<lfloor>log 2 x\<rfloor>"
  have 1: "of_int e \<le> log 2 x" and 2: "log 2 x < of_int (e + 1)" unfolding e_def by linarith+
  have "2 powr (of_int e) \<le> x" using 1 assms le_log_iff [of 2 x "of_int e"] by simp
  moreover have "x < 2 powr (of_int (e + 1))"
    using 2 assms log_less_iff [of 2 x "of_int (e + 1)"] by simp
  ultimately have "2 powi e \<le> x \<and> x < 2 powi (e + 1)"
    by (simp only: powr_real_of_int' [of 2, simplified])
  then show ?thesis ..
qed

subsection \<open>Rounding is monotone\<close>

lemma rne_of_int [simp]: "rne (of_int k) = k"
  by (simp add: rne_def)

lemma rne_bounds: "\<lfloor>x\<rfloor> \<le> rne x" "rne x \<le> \<lfloor>x\<rfloor> + 1"
  by (simp_all add: rne_def Let_def)

lemma rne_mono:
  assumes "x \<le> y"
  shows "rne x \<le> rne y"
proof (cases "\<lfloor>x\<rfloor> = \<lfloor>y\<rfloor>")
  case True
  then show ?thesis using assms by (auto simp: rne_def Let_def)
next
  case False
  have "\<lfloor>x\<rfloor> \<le> \<lfloor>y\<rfloor>" using assms by (rule floor_mono)
  with False have "\<lfloor>x\<rfloor> + 1 \<le> \<lfloor>y\<rfloor>" by simp
  then show ?thesis using rne_bounds(2) [of x] rne_bounds(1) [of y] by linarith
qed

text \<open>A power of two that is a multiple of the spacing bounds the rounded value.\<close>

lemma grid_upper:
  fixes x :: real
  assumes "x \<le> 2 powi e" "q \<le> e"
  shows "of_int (rne (x / 2 powi q)) * 2 powi q \<le> (2::real) powi e"
proof -
  have i: "(2::real) powi (e - q) = of_int (2 ^ nat (e - q))"
    using assms(2) by (simp add: power_int_def)
  have "x / 2 powi q \<le> 2 powi (e - q)" using assms(1)
    by (simp add: power_int_diff divide_right_mono)
  then have "rne (x / 2 powi q) \<le> rne (2 powi (e - q))" by (rule rne_mono)
  then have "rne (x / 2 powi q) \<le> 2 ^ nat (e - q)" unfolding i by (simp only: rne_of_int)
  then have "(of_int (rne (x / 2 powi q)) :: real) \<le> of_int (2 ^ nat (e - q))"
    by (simp only: of_int_le_iff)
  then have "of_int (rne (x / 2 powi q)) * 2 powi q \<le> (2::real) powi (e - q) * 2 powi q"
    unfolding i by (intro mult_right_mono) simp_all
  also have "\<dots> = 2 powi e" by (simp add: power_int_diff)
  finally show ?thesis .
qed

lemma grid_lower:
  fixes x :: real
  assumes "2 powi e \<le> x" "q \<le> e"
  shows "(2::real) powi e \<le> of_int (rne (x / 2 powi q)) * 2 powi q"
proof -
  have i: "(2::real) powi (e - q) = of_int (2 ^ nat (e - q))"
    using assms(2) by (simp add: power_int_def)
  have "2 powi (e - q) \<le> x / 2 powi q" using assms(1)
    by (simp add: power_int_diff divide_right_mono)
  then have "rne (2 powi (e - q)) \<le> rne (x / 2 powi q)" by (rule rne_mono)
  then have "2 ^ nat (e - q) \<le> rne (x / 2 powi q)" unfolding i by (simp only: rne_of_int)
  then have "(of_int (2 ^ nat (e - q)) :: real) \<le> of_int (rne (x / 2 powi q))"
    by (simp only: of_int_le_iff)
  then have "(2::real) powi (e - q) * 2 powi q \<le> of_int (rne (x / 2 powi q)) * 2 powi q"
    unfolding i by (intro mult_right_mono) simp_all
  moreover have "2 powi (e - q) * 2 powi q = (2::real) powi e" by (simp add: power_int_diff)
  ultimately show ?thesis by simp
qed

text \<open>The exponent that fixes the spacing around a positive number below \<open>2 powi 1024\<close>.\<close>

lemma quantum_cases:
  assumes "0 < x" "x < 2 powi 1024"
  shows "\<exists>e. quantum x = e - 52 \<and> - 1022 \<le> e \<and> e \<le> 1023 \<and> x < 2 powi (e + 1)
           \<and> (2 powi e \<le> x \<or> e = - 1022)"
proof (cases "x < 2 powi (- 1022)")
  case True
  have "ilog2 2200 x \<le> - 1022 - 1" using True by (intro ilog2_small) simp_all
  then have "quantum x = - 1022 - 52" using assms(1) by (simp add: quantum_def)
  moreover have "x < 2 powi (- 1022 + 1)"
  proof -
    have "(2::real) powi (- 1022) \<le> 2 powi (- 1022 + 1)" by (intro power_int_increasing) simp_all
    with True show ?thesis by simp
  qed
  ultimately show ?thesis by (intro exI [of _ "- 1022"]) simp
next
  case False
  obtain e where e: "2 powi e \<le> x" "x < 2 powi (e + 1)" using binade_exists [OF assms(1)] by blast
  have lo: "- 1022 \<le> e"
  proof (rule ccontr)
    assume "\<not> - 1022 \<le> e"
    then have "e + 1 \<le> - 1022" by simp
    then have "(2::real) powi (e + 1) \<le> 2 powi (- 1022)" by (intro power_int_increasing) simp_all
    with e(2) False show False by simp
  qed
  have hi: "e \<le> 1023"
  proof (rule ccontr)
    assume "\<not> e \<le> 1023"
    then have "1024 \<le> e" by simp
    then have "(2::real) powi 1024 \<le> 2 powi e" by (intro power_int_increasing) simp_all
    with e(1) assms(2) show False by simp
  qed
  have "ilog2 2200 x = e" using lo hi by (intro ilog2_eq e) simp
  then have "quantum x = e - 52" using assms(1) lo by (simp add: quantum_def)
  with e lo hi show ?thesis by blast
qed

lemma fl_nonneg: "0 \<le> x \<Longrightarrow> 0 \<le> fl x"
proof -
  assume "0 \<le> x"
  then have "0 \<le> x / 2 powi quantum x" by simp
  then have "rne 0 \<le> rne (x / 2 powi quantum x)" by (rule rne_mono)
  then have "0 \<le> rne (x / 2 powi quantum x)" by (simp add: rne_def)
  then show ?thesis by (simp add: fl_def)
qed

lemma fl_mono_pos:
  assumes "0 < x" "x \<le> y" "y < 2 powi 1024"
  shows "fl x \<le> fl y"
proof -
  have y0: "0 < y" using assms by simp
  have x1: "x < 2 powi 1024" using assms by simp
  obtain ex where ex: "quantum x = ex - 52" "- 1022 \<le> ex" "x < 2 powi (ex + 1)"
      "2 powi ex \<le> x \<or> ex = - 1022"
    using quantum_cases [OF assms(1) x1] by blast
  obtain ey where ey: "quantum y = ey - 52" "- 1022 \<le> ey" "y < 2 powi (ey + 1)"
      "2 powi ey \<le> y \<or> ey = - 1022"
    using quantum_cases [OF y0 assms(3)] by blast
  have fx: "fl x = of_int (rne (x / 2 powi (ex - 52))) * 2 powi (ex - 52)"
    using assms(1) ex(1) by (simp add: fl_def)
  have fy: "fl y = of_int (rne (y / 2 powi (ey - 52))) * 2 powi (ey - 52)"
    using y0 ey(1) by (simp add: fl_def)
  have le: "ex \<le> ey"
  proof (rule ccontr)
    assume "\<not> ex \<le> ey"
    then have "ey + 1 \<le> ex" by simp
    then have "(2::real) powi (ey + 1) \<le> 2 powi ex" by (intro power_int_increasing) simp_all
    moreover have "2 powi ex \<le> x" using ex(4) ey(2) \<open>ey + 1 \<le> ex\<close> by auto
    ultimately show False using ey(3) assms(2) by simp
  qed
  show ?thesis
  proof (cases "ex = ey")
    case True
    have "x / 2 powi (ey - 52) \<le> y / 2 powi (ey - 52)"
      using assms(2) by (simp add: divide_right_mono)
    then have "rne (x / 2 powi (ey - 52)) \<le> rne (y / 2 powi (ey - 52))" by (rule rne_mono)
    then have "(of_int (rne (x / 2 powi (ey - 52))) :: real) \<le> of_int (rne (y / 2 powi (ey - 52)))"
      by (simp only: of_int_le_iff)
    then show ?thesis unfolding fx fy True by (intro mult_right_mono) simp_all
  next
    case False
    with le have lt: "ex + 1 \<le> ey" by simp
    then have "(2::real) powi (ex + 1) \<le> 2 powi ey" by (intro power_int_increasing) simp_all
    then have "x \<le> 2 powi ey" using ex(3) by simp
    then have "fl x \<le> 2 powi ey" unfolding fx using lt by (intro grid_upper) simp_all
    moreover have "2 powi ey \<le> y" using ey(4) lt ex(2) by auto
    then have "2 powi ey \<le> fl y" unfolding fy by (intro grid_lower) simp_all
    ultimately show ?thesis by simp
  qed
qed

text \<open>Rounding never reorders two numbers that are not negative.\<close>

lemma fl_mono:
  assumes "0 \<le> x" "x \<le> y" "y < 2 powi 1024"
  shows "fl x \<le> fl y"
proof (cases "x = 0")
  case True
  then show ?thesis using assms fl_nonneg [of y] by (simp add: fl_def)
next
  case False
  then show ?thesis using assms by (intro fl_mono_pos) simp_all
qed

subsection \<open>Rounded results\<close>

lemma threshold_facts:
  "max_double < overflow_threshold" "overflow_threshold < 2 powi 1024" "0 < overflow_threshold"
  by (simp_all add: max_double_def overflow_threshold_def)

lemma round_double_Fin: "\<bar>x\<bar> < overflow_threshold \<Longrightarrow> round_double x = Fin (fl x)"
  by (simp add: round_double_def)

lemma round_double_PInf: "overflow_threshold \<le> x \<Longrightarrow> round_double x = PInf"
  using threshold_facts(3) by (simp add: round_double_def)

lemma round_double_is_double: "is_double x \<Longrightarrow> round_double x = Fin x"
  using threshold_facts(1) by (simp add: is_double_def round_double_def)

lemma round_double_mono:
  assumes "0 \<le> x" "x \<le> y"
  shows "js_le (round_double x) (round_double y)"
proof (cases "overflow_threshold \<le> y")
  case True
  then have "round_double y = PInf" by (rule round_double_PInf)
  moreover have "round_double x = PInf \<or> (\<exists>z. round_double x = Fin z)"
    using assms(1) threshold_facts(3) by (auto simp: round_double_def)
  ultimately show ?thesis by auto
next
  case False
  then have y: "\<bar>y\<bar> < overflow_threshold" "\<bar>x\<bar> < overflow_threshold" using assms by simp_all
  have "y < 2 powi 1024" using False threshold_facts(2) by simp
  then have "fl x \<le> fl y" using assms by (intro fl_mono)
  then show ?thesis using y by (simp add: round_double_Fin)
qed

lemma quantum_eq:
  assumes "2 powi e \<le> \<bar>x\<bar>" "\<bar>x\<bar> < 2 powi (e + 1)" "- 1022 \<le> e" "e \<le> 2200"
  shows "quantum x = e - 52"
proof -
  have "ilog2 2200 \<bar>x\<bar> = e" using assms by (intro ilog2_eq) simp_all
  then show ?thesis using assms(3) by (simp add: quantum_def)
qed

subsection \<open>Rounding error\<close>

lemma rne_error: "\<bar>of_int (rne y) - y\<bar> \<le> 1 / 2"
proof -
  have "of_int \<lfloor>y\<rfloor> \<le> y" "y < of_int \<lfloor>y\<rfloor> + 1" by linarith+
  then show ?thesis by (auto simp: rne_def Let_def)
qed

lemma fl_error: "\<bar>fl x - x\<bar> \<le> ulp x / 2"
proof (cases "x = 0")
  case True
  then show ?thesis by (simp add: fl_def ulp_def)
next
  case False
  define q where "q = quantum x"
  have p: "0 < (2::real) powi q" by simp
  have "fl x - x = (of_int (rne (x / 2 powi q)) - x / 2 powi q) * 2 powi q"
    using False by (simp add: fl_def q_def algebra_simps)
  then have "\<bar>fl x - x\<bar> = \<bar>of_int (rne (x / 2 powi q)) - x / 2 powi q\<bar> * 2 powi q"
    by (simp add: abs_mult)
  also have "\<dots> \<le> 1 / 2 * 2 powi q"
    using rne_error [of "x / 2 powi q"] by (intro mult_right_mono) simp_all
  finally show ?thesis by (simp add: ulp_def q_def)
qed

lemma quantum_low: "- 1074 \<le> quantum x"
  by (simp add: quantum_def)

lemma quantum_wide:
  assumes "0 < x" "x < 2 powi 2048"
  shows "\<exists>e. quantum x = e - 52 \<and> - 1022 \<le> e \<and> x < 2 powi (e + 1)
           \<and> (2 powi e \<le> x \<or> e = - 1022)"
proof (cases "x < 2 powi (- 1022)")
  case True
  have "ilog2 2200 x \<le> - 1022 - 1" using True by (intro ilog2_small) simp_all
  then have "quantum x = - 1022 - 52" using assms(1) by (simp add: quantum_def)
  moreover have "x < 2 powi (- 1022 + 1)"
  proof -
    have "(2::real) powi (- 1022) \<le> 2 powi (- 1022 + 1)" by (intro power_int_increasing) simp_all
    with True show ?thesis by simp
  qed
  ultimately show ?thesis by (intro exI [of _ "- 1022"]) simp
next
  case False
  obtain e where e: "2 powi e \<le> x" "x < 2 powi (e + 1)" using binade_exists [OF assms(1)] by blast
  have lo: "- 1022 \<le> e"
  proof (rule ccontr)
    assume "\<not> - 1022 \<le> e"
    then have "e + 1 \<le> - 1022" by simp
    then have "(2::real) powi (e + 1) \<le> 2 powi (- 1022)" by (intro power_int_increasing) simp_all
    with e(2) False show False by simp
  qed
  have hi: "e \<le> 2047"
  proof (rule ccontr)
    assume "\<not> e \<le> 2047"
    then have "2048 \<le> e" by simp
    then have "(2::real) powi 2048 \<le> 2 powi e" by (intro power_int_increasing) simp_all
    with e(1) assms(2) show False by simp
  qed
  have "quantum x = e - 52" using e lo hi assms(1) by (intro quantum_eq) simp_all
  with e lo show ?thesis by blast
qed

lemma quantum_mono:
  assumes "0 \<le> x" "x \<le> y" "y < 2 powi 2048"
  shows "quantum x \<le> quantum y"
proof (cases "x = 0")
  case True
  have "quantum (0::real) = - 1074"
  proof -
    have "ilog2 2200 0 \<le> - 1022 - 1" by (intro ilog2_small) simp_all
    then show ?thesis by (simp add: quantum_def)
  qed
  then show ?thesis using True quantum_low [of y] by simp
next
  case False
  then have x0: "0 < x" using assms(1) by simp
  have y0: "0 < y" using x0 assms(2) by simp
  have x1: "x < 2 powi 2048" using assms by simp
  obtain ex where ex: "quantum x = ex - 52" "- 1022 \<le> ex" "x < 2 powi (ex + 1)"
      "2 powi ex \<le> x \<or> ex = - 1022"
    using quantum_wide [OF x0 x1] by blast
  obtain ey where ey: "quantum y = ey - 52" "- 1022 \<le> ey" "y < 2 powi (ey + 1)"
      "2 powi ey \<le> y \<or> ey = - 1022"
    using quantum_wide [OF y0 assms(3)] by blast
  have "ex \<le> ey"
  proof (rule ccontr)
    assume "\<not> ex \<le> ey"
    then have "ey + 1 \<le> ex" by simp
    then have "(2::real) powi (ey + 1) \<le> 2 powi ex" by (intro power_int_increasing) simp_all
    moreover have "2 powi ex \<le> x" using ex(4) ey(2) \<open>ey + 1 \<le> ex\<close> by auto
    ultimately show False using ey(3) assms(2) by simp
  qed
  then show ?thesis using ex(1) ey(1) by simp
qed

lemma ulp_mono: "0 \<le> x \<Longrightarrow> x \<le> y \<Longrightarrow> y < 2 powi 2048 \<Longrightarrow> ulp x \<le> ulp y"
  unfolding ulp_def by (intro power_int_increasing quantum_mono) simp_all

subsection \<open>Remainder\<close>

lemma rem_real_bounds:
  assumes "0 \<le> a" "0 < b"
  shows "0 \<le> rem_real a b" "rem_real a b < b"
proof -
  have f: "rem_real a b = a - b * of_int \<lfloor>a / b\<rfloor>"
    using assms by (simp add: rem_real_def js_trunc_def)
  have l: "of_int \<lfloor>a / b\<rfloor> * b \<le> a" using assms(2) by (rule floor_divide_lower)
  have u: "a < (of_int \<lfloor>a / b\<rfloor> + 1) * b" using assms(2) by (rule floor_divide_upper)
  show "0 \<le> rem_real a b" using l by (simp add: f mult.commute)
  show "rem_real a b < b" using u by (simp add: f algebra_simps)
qed


subsection \<open>Quantisation\<close>

text \<open>The aligned time, for a position and a subdivision that are doubles.\<close>

lemma nextTickSeconds_bounds:
  assumes "is_double now" "0 \<le> now" "is_double sub" "0 < sub"
  shows "js_le (Fin now) (nextTickSeconds (Fin now) (Fin sub))"
    and "js_le (nextTickSeconds (Fin now) (Fin sub)) (js_add (Fin now) (Fin sub))"
proof -
  define r where "r = rem_real now sub"
  have r: "0 \<le> r" "r < sub" unfolding r_def using rem_real_bounds [OF assms(2,4)] by simp_all
  have rem: "js_rem (Fin now) (Fin sub) = Fin r" using assms(4) by (simp add: r_def)
  have now: "round_double now = Fin now" using assms(1) by (rule round_double_is_double)
  have sub: "round_double sub = Fin sub" using assms(3) by (rule round_double_is_double)
  have sum: "js_le (Fin now) (js_add (Fin now) (Fin sub))"
    using round_double_mono [of now "now + sub"] assms(2,4) now by simp
  show "js_le (Fin now) (nextTickSeconds (Fin now) (Fin sub))"
    and "js_le (nextTickSeconds (Fin now) (Fin sub)) (js_add (Fin now) (Fin sub))"
  proof (atomize (full), cases "r = 0")
    case True
    then show "js_le (Fin now) (nextTickSeconds (Fin now) (Fin sub)) \<and>
      js_le (nextTickSeconds (Fin now) (Fin sub)) (js_add (Fin now) (Fin sub))"
      using sum by (simp add: nextTickSeconds_def rem js_eq_def del: js_rem.simps)
  next
    case False
    have d: "js_sub (Fin sub) (Fin r) = round_double (sub - r)" by (simp add: js_sub_def)
    define d' where "d' = fl (sub - r)"
    have small: "\<bar>sub - r\<bar> < overflow_threshold" "sub < 2 powi 1024"
      using r assms(3) threshold_facts by (simp_all add: is_double_def)
    have d': "round_double (sub - r) = Fin d'" unfolding d'_def using small(1) by (rule round_double_Fin)
    have "fl (sub - r) \<le> fl sub" using r small(2) by (intro fl_mono) simp_all
    then have d'_le: "d' \<le> sub" using assms(3) by (simp add: d'_def is_double_def)
    have d0: "0 \<le> d'" unfolding d'_def using r by (intro fl_nonneg) simp
    have next_eq: "nextTickSeconds (Fin now) (Fin sub) = round_double (now + d')"
      using False by (simp add: nextTickSeconds_def rem js_eq_def d d' del: js_rem.simps)
    have "js_le (round_double now) (round_double (now + d'))"
      using assms(2) d0 by (intro round_double_mono) simp_all
    moreover have "js_le (round_double (now + d')) (round_double (now + sub))"
      using assms(2) d0 d'_le by (intro round_double_mono) simp_all
    ultimately show "js_le (Fin now) (nextTickSeconds (Fin now) (Fin sub)) \<and>
      js_le (nextTickSeconds (Fin now) (Fin sub)) (js_add (Fin now) (Fin sub))"
      by (simp add: next_eq now)
  qed
qed

lemma nextTickSeconds_on_grid:
  "js_rem now sub = Fin 0 \<Longrightarrow> nextTickSeconds now sub = now"
  by (simp add: nextTickSeconds_def js_eq_def)

text \<open>Off a boundary the aligned time is the next boundary up to two roundings.\<close>

lemma nextTickSeconds_near_grid:
  assumes "is_double now" "0 \<le> now" "is_double sub" "0 < sub"
    and "rem_real now sub \<noteq> 0"
    and "nextTickSeconds (Fin now) (Fin sub) = Fin t"
  shows "\<bar>t - (now + (sub - rem_real now sub))\<bar> \<le> (ulp sub + ulp (now + sub)) / 2"
proof -
  define r where "r = rem_real now sub"
  have r: "0 \<le> r" "r < sub" unfolding r_def using rem_real_bounds [OF assms(2,4)] by simp_all
  have rem: "js_rem (Fin now) (Fin sub) = Fin r" using assms(4) by (simp add: r_def)
  define d' where "d' = fl (sub - r)"
  have md: "now \<le> max_double" "sub \<le> max_double"
    using assms(1,2,3,4) by (auto simp: is_double_def)
  have small: "\<bar>sub - r\<bar> < overflow_threshold" "sub < 2 powi 1024"
    using r md threshold_facts by simp_all
  have d': "round_double (sub - r) = Fin d'" unfolding d'_def using small(1) by (rule round_double_Fin)
  have "fl (sub - r) \<le> fl sub" using r small(2) by (intro fl_mono) simp_all
  then have d'_le: "d' \<le> sub" using assms(3) by (simp add: d'_def is_double_def)
  have d0: "0 \<le> d'" unfolding d'_def using r by (intro fl_nonneg) simp
  have nz: "r \<noteq> 0" using assms(5) by (simp add: r_def)
  have "nextTickSeconds (Fin now) (Fin sub) = round_double (now + d')"
    using nz by (simp add: nextTickSeconds_def rem js_eq_def js_sub_def d' del: js_rem.simps)
  then have t: "t = fl (now + d')" using assms(6) by (auto simp: round_double_def split: if_splits)
  have wide: "now + sub < 2 powi 2048"
  proof -
    have "now + sub \<le> 2 * max_double" using md by simp
    also have "\<dots> < 2 powi 2048" by (simp add: max_double_def)
    finally show ?thesis .
  qed
  have 1: "\<bar>fl (now + d') - (now + d')\<bar> \<le> ulp (now + d') / 2" by (rule fl_error)
  have 2: "\<bar>d' - (sub - r)\<bar> \<le> ulp (sub - r) / 2" unfolding d'_def by (rule fl_error)
  have 3: "ulp (now + d') \<le> ulp (now + sub)"
    using assms(2) d0 d'_le wide by (intro ulp_mono) simp_all
  have 4: "ulp (sub - r) \<le> ulp sub"
    using r assms(2) wide by (intro ulp_mono) simp_all
  have "\<bar>t - (now + (sub - r))\<bar> \<le> \<bar>fl (now + d') - (now + d')\<bar> + \<bar>d' - (sub - r)\<bar>"
    unfolding t by linarith
  also have "\<dots> \<le> ulp (now + sub) / 2 + ulp sub / 2" using 1 2 3 4 by linarith
  finally show ?thesis by (simp add: r_def field_simps)
qed


subsection \<open>Evaluation at 104 bpm\<close>

lemmas double_eval = fl_def quantum_def ilog2_numeral rne_def power_int_minus Let_def
  round_double_def overflow_threshold_def max_double_def is_double_def
  rem_real_def js_trunc_def js_sub_def js_eq_def nextTickSeconds_def tick_of_def
  GRID_RESOLUTION_def

lemma offgrid_stays: "nextTickSeconds (Fin (3247788192815261 / 4503599627370496)) (Fin sixteenth_104)
    = Fin (3247788192815261 / 4503599627370496)"
  "js_rem (Fin (3247788192815261 / 4503599627370496)) (Fin sixteenth_104)
    = Fin (162389409640763 / 1125899906842624)"
  by (simp_all add: double_eval sixteenth_104_def)

lemma past_grid_pushed: "nextTickSeconds (Fin (4506306117531175 / 281474976710656)) (Fin sixteenth_104)
    = Fin (2273451734970683 / 140737488355328)"
  by (simp add: double_eval sixteenth_104_def)

lemma rounded_quotient: "tick_of (Fin (67 / 8)) (Fin sixteenth_104) = Fin 11"
  "nextTickSeconds (Fin (67 / 8)) (Fin sixteenth_104) = Fin (2395243792201255 / 281474976710656)"
  "js_div (Fin (2395243792201255 / 281474976710656)) (Fin sixteenth_104) = Fin (8303511812964351 / 140737488355328)"
  by (simp_all add: double_eval sixteenth_104_def)

lemma doubles_104: "is_double (67 / 8)" "is_double sixteenth_104" "is_double 0" "is_double (1 / 8)"
  by (simp_all add: double_eval sixteenth_104_def)

lemma Time_values_104: "js_mul (js_div (Fin 60) (Fin 104)) (Fin (1 / 4)) = Fin sixteenth_104"
  "js_mul (js_div (Fin 60) (Fin 104)) (Fin 4) = Fin measure_104"
  by (simp_all add: double_eval sixteenth_104_def measure_104_def)






lemma nextTickSeconds_eighth: "nextTickSeconds (Fin (1 / 8)) (Fin sixteenth_104) = Fin sixteenth_104"
  by (simp add: double_eval sixteenth_104_def)

subsection \<open>The initialised world\<close>

lemmas world_defs = ready_at_def init_def init_call_def init_settled_def init_body_def
  new_world_def new_AudioEngine_def idle_transport_def new_node_def DEFAULT_BPM_def
  ensureReady_def

lemma Time_104:
  "bpm_value t = Fin 104 \<Longrightarrow> Time_16n t = Fin sixteenth_104"
  "bpm_value t = Fin 104 \<Longrightarrow> Time_1m t = Fin measure_104"
  by (simp_all add: Time_16n_def Time_1m_def double_eval sixteenth_104_def measure_104_def)

lemma ready_at_simps:
  "initialized (engine (ready_at s))" "seconds (transport (ready_at s)) = Fin s"
  "bpm_value (transport (ready_at s)) = Fin 104"
  "parts (ready_at s) = []" "scheduleOnce (transport (ready_at s)) = []"
  "clips (ready_at s) = library" "next_clip (ready_at s) = 2" "awaiting (ready_at s) = 0"
  "nodes (engine (ready_at s)) = built_nodes"
  by (simp_all add: world_defs nodes_def built_nodes_def)

lemma ready_at_Time:
  "Time_16n (transport (ready_at s)) = Fin sixteenth_104"
  "Time_1m (transport (ready_at s)) = Fin measure_104"
  by (simp_all add: Time_104 ready_at_simps)

lemma triggerPad_ready:
  "initialized (engine w) \<Longrightarrow>
   triggerPad p v w =
     (Inr \<lparr>trigger_tick = tick_of (seconds (transport w)) (Time_16n (transport w)),
           scheduledAt = nextTickSeconds (seconds (transport w)) (Time_16n (transport w))\<rparr>,
      w\<lparr>transport := (transport w)
           \<lparr>scheduleOnce := scheduleOnce (transport w) @
              [(nextTickSeconds (seconds (transport w)) (Time_16n (transport w)), p,
                case v of None \<Rightarrow> Fin 1 | Some x \<Rightarrow> x)]\<rparr>\<rparr>)"
  by (simp add: triggerPad_def ensureReady_def Let_def)

lemma triggerPad_ready_at:
  "fst (triggerPad p v (ready_at n))
     = Inr \<lparr>trigger_tick = tick_of (Fin n) (Fin sixteenth_104),
            scheduledAt = nextTickSeconds (Fin n) (Fin sixteenth_104)\<rparr>"
  by (simp add: triggerPad_ready ready_at_simps ready_at_Time)

lemma createClip_ready:
  "initialized (engine w) \<Longrightarrow>
   createClip source w =
     (Inr (next_clip w),
      w\<lparr>parts := parts w @
           [\<lparr>part_events = scheduled (Time_1m (transport w)) (events (clips w source)),
             loop = True, loopEnd = ''1m'', humanize = round_double (1 / 100),
             startCalls = [Fin 0], stopCalls = 0, part_disposeCalls = 0\<rparr>],
        clips := (clips w)(next_clip w := (clips w source)\<lparr>part := Some (length (parts w))\<rparr>),
        next_clip := Suc (next_clip w)\<rparr>)"
  by (simp add: createClip_def ensureReady_def Let_def)

lemma library_simps:
  "events (library example_ref) = events example_clip"
  "events (library negative_ref) = events negative_clip"
  "part (library example_ref) = None"
  by (simp_all add: library_def example_ref_def negative_ref_def LoopClip.extend_def)


lemma scheduled_negative:
  "scheduled (Fin measure_104) (events negative_clip) =
     [(Fin (- sixteenth_104), \<lparr>tick = Fin (- 1), padId = Kick, velocity = Fin 1\<rparr>)]"
proof -
  have c: "\<lceil>- ((1::real) / 16)\<rceil> = 0" by (simp add: ceiling_minus)
  have r: "rem_real (- 1) 16 = - 1" by (simp add: rem_real_def js_trunc_def c)
  show ?thesis
    by (simp add: scheduled_def negative_clip_def example_clip_def GRID_RESOLUTION_def r)
      (simp add: double_eval measure_104_def sixteenth_104_def)
qed

lemma created_example:
  "createClip example_ref (ready_at 0) =
     (Inr example_handle,
      (ready_at 0)\<lparr>parts :=
        [\<lparr>part_events = scheduled (Fin measure_104) (events example_clip),
          loop = True, loopEnd = ''1m'', humanize = round_double (1 / 100),
          startCalls = [Fin 0], stopCalls = 0, part_disposeCalls = 0\<rparr>],
        clips := library(example_handle := (library example_ref)\<lparr>part := Some 0\<rparr>),
        next_clip := 3\<rparr>)"
  by (simp add: createClip_ready ready_at_simps ready_at_Time library_simps example_handle_def)

lemma created_negative:
  "createClip negative_ref (ready_at 0) =
     (Inr example_handle,
      (ready_at 0)\<lparr>parts :=
        [\<lparr>part_events = scheduled (Fin measure_104) (events negative_clip),
          loop = True, loopEnd = ''1m'', humanize = round_double (1 / 100),
          startCalls = [Fin 0], stopCalls = 0, part_disposeCalls = 0\<rparr>],
        clips := library(example_handle := (library negative_ref)\<lparr>part := Some 0\<rparr>),
        next_clip := 3\<rparr>)"
  by (simp add: createClip_ready ready_at_simps ready_at_Time library_simps example_handle_def)

text \<open>One pair per event, in the order of the clip and with repeated events kept.\<close>

lemma createClip_pairs:
  assumes "initialized (engine w)"
  shows "\<exists>P. parts (snd (createClip source w)) = parts w @ [P]
            \<and> length (part_events P) = length (events (clips w source))
            \<and> map snd (part_events P) = events (clips w source)
            \<and> loop P \<and> loopEnd P = ''1m'' \<and> humanize P = round_double (1 / 100)
            \<and> startCalls P = [Fin 0] \<and> stopCalls P = 0 \<and> part_disposeCalls P = 0"
  using assms by (simp add: createClip_ready scheduled_def comp_def)

subsection \<open>The readiness flag along a sequence of calls\<close>

lemma call_keeps_not_ready:
  "c \<noteq> Settle None \<Longrightarrow> \<not> initialized (engine w) \<Longrightarrow> \<not> initialized (engine (call c w))"
  by (cases c)
    (auto simp: init_call_def init_settled_def dispose_def setBpm_def setFilterFrequency_def
      setReverbWet_def triggerPad_def createClip_def stopClip_def ensureReady_def
      split: option.splits)

lemma calls_keep_not_ready:
  "\<forall>c \<in> set cs. c \<noteq> Settle None \<Longrightarrow> \<not> initialized (engine w)
   \<Longrightarrow> \<not> initialized (engine (calls cs w))"
  by (induction cs arbitrary: w) (simp_all add: call_keeps_not_ready)

lemma init_makes_ready:
  "\<not> initialized (engine w) \<Longrightarrow>
   fst (init None w) = Inr () \<and> initialized (engine (snd (init None w)))
   \<and> nodes (engine (snd (init None w))) = built_nodes
   \<and> bpm_value (transport (snd (init None w))) = bpm (engine w)"
  by (simp add: init_def init_call_def init_settled_def init_body_def nodes_def built_nodes_def)

lemma settle_makes_ready:
  "0 < awaiting w \<Longrightarrow>
   initialized (engine (snd (init_settled None w)))
   \<and> nodes (engine (snd (init_settled None w))) = built_nodes"
  by (simp add: init_settled_def init_body_def nodes_def built_nodes_def)

subsection \<open>What dispose and stopClip touch\<close>

lemma nodes_dispose:
  "nodes (engine (snd (dispose w))) = map (map_option node_dispose) (nodes (engine w))"
  by (simp add: nodes_def dispose_def)

lemma disposeCalls_node_dispose:
  "map_option disposeCalls (map_option node_dispose n) = map_option (\<lambda>m. Suc (disposeCalls m)) n"
  by (cases n) (simp_all add: node_dispose_def)

lemma stopClip_at:
  "part (clips w a) = Some i \<Longrightarrow> i < length (parts w) \<Longrightarrow>
   stopClip a w = (Inr (), w\<lparr>parts := (parts w)[i := part_stop_dispose (parts w ! i)]\<rparr>)"
  by (simp add: stopClip_def)

lemma stopClip_frame:
  "fst (stopClip a w) = Inr ()" "engine (snd (stopClip a w)) = engine w"
  "transport (snd (stopClip a w)) = transport w"
  "length (parts (snd (stopClip a w))) = length (parts w)"
  "clips (snd (stopClip a w)) = clips w" "next_clip (snd (stopClip a w)) = next_clip w"
  by (simp_all add: stopClip_def split: option.splits)

lemma stopClip_part_events:
  "map part_events (parts (snd (stopClip a w))) = map part_events (parts w)"
  by (auto simp: stopClip_def part_stop_dispose_def map_update list_update_same_conv
      split: option.splits)

section \<open>The claims\<close>

text \<open>
  C1, as amended. For every position \<open>now \<ge> 0\<close> and every subdivision \<open>> 0\<close>, both finite
  doubles, the aligned time computed by the quantisation in \<open>triggerPad\<close> (the returned
  \<open>scheduledAt\<close>, which is also the time the callback is registered at) is at or after
  \<open>now\<close>, is at most the double sum \<open>now + subdivision\<close>, and equals \<open>now\<close> whenever
  \<open>now % subdivision === 0\<close>: a position on a boundary is not pushed to the next one.
  Off a boundary it is the next boundary \<open>now + (subdivision - now % subdivision)\<close> up to
  two roundings: it differs from it by at most half a unit in the last place of the
  subdivision plus half a unit in the last place of \<open>now + subdivision\<close>. It is never
  NaN, and it is \<open>+Infinity\<close> only if the sum overflows.
\<close>

theorem triggerPad_aligned:
  assumes "initialized (engine w)"
    and "seconds (transport w) = Fin now" and "is_double now" and "0 \<le> now"
    and "Time_16n (transport w) = Fin subdivision" and "is_double subdivision"
    and "0 < subdivision"
  shows "\<exists>q. fst (triggerPad p v w) = Inr q
           \<and> js_le (Fin now) (scheduledAt q)
           \<and> js_le (scheduledAt q) (js_add (Fin now) (Fin subdivision))
           \<and> (js_rem (Fin now) (Fin subdivision) = Fin 0 \<longrightarrow> scheduledAt q = Fin now)
           \<and> (\<forall>r t. js_rem (Fin now) (Fin subdivision) = Fin r \<and> r \<noteq> 0
                  \<and> scheduledAt q = Fin t \<longrightarrow>
                \<bar>t - (now + (subdivision - r))\<bar>
                  \<le> (ulp subdivision + ulp (now + subdivision)) / 2)
           \<and> scheduleOnce (transport (snd (triggerPad p v w))) =
               scheduleOnce (transport w) @
                 [(scheduledAt q, p, case v of None \<Rightarrow> Fin 1 | Some x \<Rightarrow> x)]"
proof -
  have rem: "js_rem (Fin now) (Fin subdivision) = Fin (rem_real now subdivision)"
    using assms(7) by simp
  have near: "\<forall>r t. js_rem (Fin now) (Fin subdivision) = Fin r \<and> r \<noteq> 0
                  \<and> nextTickSeconds (Fin now) (Fin subdivision) = Fin t \<longrightarrow>
                \<bar>t - (now + (subdivision - r))\<bar>
                  \<le> (ulp subdivision + ulp (now + subdivision)) / 2"
    unfolding rem using nextTickSeconds_near_grid [OF assms(3,4,6,7)] by auto
  show ?thesis
    using nextTickSeconds_bounds [OF assms(3,4,6,7)]
      nextTickSeconds_on_grid [of "Fin now" "Fin subdivision"] near assms(1,2,5)
    by (simp add: triggerPad_ready del: js_rem.simps js_add.simps)
qed

theorem triggerPad_aligned_witness:
  "(\<exists>q. fst (triggerPad Kick None (ready_at sixteenth_104)) = Inr q
       \<and> js_le (Fin sixteenth_104) (scheduledAt q)
       \<and> js_le (scheduledAt q) (js_add (Fin sixteenth_104) (Fin sixteenth_104))
       \<and> scheduledAt q = Fin sixteenth_104)
   \<and> (\<exists>q. fst (triggerPad Kick None (ready_at (67 / 8))) = Inr q
       \<and> scheduledAt q = Fin (2395243792201255 / 281474976710656)
       \<and> js_rem (Fin (67 / 8)) (Fin sixteenth_104) = Fin (86607685141747 / 9007199254740992)
       \<and> \<bar>2395243792201255 / 281474976710656
            - (67 / 8 + (sixteenth_104 - 86607685141747 / 9007199254740992))\<bar>
           \<le> (ulp sixteenth_104 + ulp (67 / 8 + sixteenth_104)) / 2)"
proof -
  have h: "initialized (engine (ready_at sixteenth_104))"
    "seconds (transport (ready_at sixteenth_104)) = Fin sixteenth_104"
    "is_double sixteenth_104" "0 \<le> sixteenth_104"
    "Time_16n (transport (ready_at sixteenth_104)) = Fin sixteenth_104"
    "is_double sixteenth_104" "0 < sixteenth_104"
    by (simp_all add: ready_at_simps ready_at_Time doubles_104) (simp_all add: sixteenth_104_def)
  have g: "js_rem (Fin sixteenth_104) (Fin sixteenth_104) = Fin 0"
    by (simp add: rem_real_def js_trunc_def sixteenth_104_def)
  have k: "initialized (engine (ready_at (67 / 8)))"
    "seconds (transport (ready_at (67 / 8))) = Fin (67 / 8)"
    "is_double (67 / 8)" "0 \<le> (67 / 8 :: real)"
    "Time_16n (transport (ready_at (67 / 8))) = Fin sixteenth_104"
    "is_double sixteenth_104" "0 < sixteenth_104"
    by (simp_all add: ready_at_simps ready_at_Time doubles_104) (simp_all add: sixteenth_104_def)
  have r: "js_rem (Fin (67 / 8)) (Fin sixteenth_104) = Fin (86607685141747 / 9007199254740992)"
    "(86607685141747 / 9007199254740992 :: real) \<noteq> 0"
    by (simp_all add: rem_real_def js_trunc_def sixteenth_104_def)
  have n: "fst (triggerPad Kick None (ready_at (67 / 8)))
      = Inr \<lparr>trigger_tick = Fin 11, scheduledAt = Fin (2395243792201255 / 281474976710656)\<rparr>"
    by (simp add: triggerPad_ready_at rounded_quotient)
  from triggerPad_aligned [OF h, of Kick None] g
  have 1: "\<exists>q. fst (triggerPad Kick None (ready_at sixteenth_104)) = Inr q
       \<and> js_le (Fin sixteenth_104) (scheduledAt q)
       \<and> js_le (scheduledAt q) (js_add (Fin sixteenth_104) (Fin sixteenth_104))
       \<and> scheduledAt q = Fin sixteenth_104"
    by blast
  from triggerPad_aligned [OF k, of Kick None]
  obtain q where q: "fst (triggerPad Kick None (ready_at (67 / 8))) = Inr q"
    and b: "\<forall>r t. js_rem (Fin (67 / 8)) (Fin sixteenth_104) = Fin r \<and> r \<noteq> 0
                  \<and> scheduledAt q = Fin t \<longrightarrow>
                \<bar>t - (67 / 8 + (sixteenth_104 - r))\<bar>
                  \<le> (ulp sixteenth_104 + ulp (67 / 8 + sixteenth_104)) / 2"
    by blast
  from q n have "scheduledAt q = Fin (2395243792201255 / 281474976710656)"
    by auto
  with b r
  have 2: "\<bar>2395243792201255 / 281474976710656
            - (67 / 8 + (sixteenth_104 - 86607685141747 / 9007199254740992))\<bar>
           \<le> (ulp sixteenth_104 + ulp (67 / 8 + sixteenth_104)) / 2"
    by blast
  from 1 2 n r(1) show ?thesis by auto
qed

text \<open>
  C1 as stated fails in double arithmetic, at the default 104 bpm (sixteenth note
  0.14423076923076922 s). At \<open>now = 0.721153846153846\<close> the remainder is
  0.14423076923076916, not zero, and the sum \<open>now + (subdivision - remainder)\<close> rounds
  back to \<open>now\<close>: the aligned time equals \<open>now\<close> off the grid. At
  \<open>now = 16.009615384615383\<close> the aligned time is 16.153846153846153, more than one
  subdivision after \<open>now\<close>.
\<close>

theorem triggerPad_rounding_counterexample:
  "fst (triggerPad Kick None (ready_at (3247788192815261 / 4503599627370496)))
     = Inr \<lparr>trigger_tick = Fin 5, scheduledAt = Fin (3247788192815261 / 4503599627370496)\<rparr>
   \<and> js_rem (Fin (3247788192815261 / 4503599627370496)) (Fin sixteenth_104)
       = Fin (162389409640763 / 1125899906842624)
   \<and> is_double (3247788192815261 / 4503599627370496)
   \<and> fst (triggerPad Kick None (ready_at (4506306117531175 / 281474976710656)))
       = Inr \<lparr>trigger_tick = Fin 0, scheduledAt = Fin (2273451734970683 / 140737488355328)\<rparr>
   \<and> is_double (4506306117531175 / 281474976710656)
   \<and> sixteenth_104 < 2273451734970683 / 140737488355328 - 4506306117531175 / 281474976710656"
  by (simp add: triggerPad_ready ready_at_simps ready_at_Time)
    (simp add: double_eval sixteenth_104_def)




text \<open>
  C3. Every scheduling or parameter-setting method (\<open>setBpm\<close>, \<open>setFilterFrequency\<close>,
  \<open>setReverbWet\<close>, \<open>triggerPad\<close>, \<open>createClip\<close>) called while the engine is not initialised
  throws the error of \<open>ensureReady\<close>. A new engine is not initialised, an engine is not
  initialised after \<open>dispose\<close>, and it stays so while a call of \<open>init\<close> is suspended and
  when \<open>init\<close> fails to unlock the audio output.
\<close>

theorem not_ready_raises:
  assumes "\<not> initialized (engine w)"
  shows "fst (setBpm b w) = Inl EngineNotReady
       \<and> fst (setFilterFrequency f w) = Inl EngineNotReady
       \<and> fst (setReverbWet r w) = Inl EngineNotReady
       \<and> fst (triggerPad p v w) = Inl EngineNotReady
       \<and> fst (createClip c w) = Inl EngineNotReady
       \<and> \<not> initialized new_AudioEngine
       \<and> \<not> initialized (engine (snd (dispose w0)))
       \<and> \<not> initialized (engine (snd (init (Some err) w)))
       \<and> \<not> initialized (engine (snd (init_call w)))"
  using assms
  by (simp add: setBpm_def setFilterFrequency_def setReverbWet_def triggerPad_def createClip_def
      ensureReady_def new_AudioEngine_def dispose_def init_def init_call_def init_settled_def)

theorem not_ready_raises_witness:
  "\<not> initialized (engine (snd (dispose (ready_at 0))))
   \<and> fst (setBpm (Fin 120) (snd (dispose (ready_at 0)))) = Inl EngineNotReady
   \<and> fst (setFilterFrequency (Fin 800) (snd (dispose (ready_at 0)))) = Inl EngineNotReady
   \<and> fst (setReverbWet (Fin (1 / 2)) (snd (dispose (ready_at 0)))) = Inl EngineNotReady
   \<and> fst (triggerPad Kick None (snd (dispose (ready_at 0)))) = Inl EngineNotReady
   \<and> fst (createClip example_ref (snd (dispose (ready_at 0)))) = Inl EngineNotReady"
proof -
  have h: "\<not> initialized (engine (snd (dispose (ready_at 0))))" by (simp add: dispose_def)
  from not_ready_raises [OF h, of "Fin 120" "Fin 800" "Fin (1 / 2)" Kick None example_ref] h
  show ?thesis by blast
qed

text \<open>
  C4, as amended. After \<open>dispose\<close> the engine is not initialised, and it stays so along
  every sequence of calls in which no suspended \<open>init\<close> resumes after a successful audio
  unlock. The state is not terminal: a later \<open>init\<close> on the same instance succeeds, builds
  ten new nodes, none of them disposed, and makes the engine ready again; and so does an
  \<open>init\<close> that was already suspended at its \<open>await\<close> when \<open>dispose\<close> ran. The engine has one
  boolean flag, which \<open>dispose\<close> clears and \<open>init\<close> tests before the \<open>await\<close>: there is no
  separate disposed state.
\<close>

theorem dispose_not_terminal:
  assumes "\<forall>c \<in> set cs. c \<noteq> Settle None"
  shows "\<not> initialized (engine (calls cs (snd (dispose w))))
       \<and> fst (init None (calls cs (snd (dispose w)))) = Inr ()
       \<and> initialized (engine (snd (init None (calls cs (snd (dispose w))))))
       \<and> nodes (engine (snd (init None (calls cs (snd (dispose w)))))) = built_nodes
       \<and> (0 < awaiting w \<longrightarrow>
            initialized (engine (snd (init_settled None (snd (dispose w)))))
            \<and> nodes (engine (snd (init_settled None (snd (dispose w))))) = built_nodes)"
proof -
  have "\<not> initialized (engine (snd (dispose w)))" by (simp add: dispose_def)
  then have "\<not> initialized (engine (calls cs (snd (dispose w))))"
    using assms by (simp add: calls_keep_not_ready)
  moreover have "awaiting (snd (dispose w)) = awaiting w" by (simp add: dispose_def)
  ultimately show ?thesis by (simp add: init_makes_ready settle_makes_ready)
qed

theorem dispose_not_terminal_witness:
  "\<not> initialized (engine
         (calls [SetBpm (Fin 120), Init, Settle (Some (Error ''denied'')), TriggerPad Kick None,
                 Dispose]
            (snd (dispose (snd (init_call (ready_at 0)))))))
   \<and> nodes (engine (snd (init None
        (calls [SetBpm (Fin 120), Init, Settle (Some (Error ''denied'')), TriggerPad Kick None,
                Dispose]
           (snd (dispose (snd (init_call (snd (dispose (ready_at 0)))))))))))
       = built_nodes
   \<and> 0 < awaiting (snd (init_call (snd (dispose (ready_at 0)))))
   \<and> initialized (engine (snd (init_settled None
        (snd (dispose (snd (init_call (snd (dispose (ready_at 0))))))))))"
proof -
  have h: "\<forall>c \<in> set [SetBpm (Fin 120), Init, Settle (Some (Error ''denied'')),
      TriggerPad Kick None, Dispose]. c \<noteq> Settle None" by simp
  have a: "0 < awaiting (snd (init_call (snd (dispose (ready_at 0)))))"
    by (simp add: init_call_def dispose_def)
  from dispose_not_terminal [OF h, of "snd (init_call (ready_at 0))"]
    dispose_not_terminal [OF h, of "snd (init_call (snd (dispose (ready_at 0))))"] a
  show ?thesis by blast
qed

text \<open>
  C4 as stated fails: an engine that was initialised and disposed, with its ten nodes
  disposed once each, is ready again after one more \<open>init\<close>, with ten nodes that were
  never disposed, and \<open>triggerPad\<close> then returns a trigger. A new engine on which
  \<open>dispose\<close> runs while \<open>init\<close> is suspended becomes ready when the \<open>init\<close> resumes.
\<close>

theorem dispose_then_init_counterexample:
  "map (map_option disposeCalls) (nodes (engine (snd (dispose (ready_at 0)))))
     = [Some 1, Some 1, Some 1, Some 1, Some 1, Some 1, Some 1, Some 1, Some 1, Some 1]
   \<and> \<not> initialized (engine (snd (dispose (ready_at 0))))
   \<and> initialized (engine (calls [Init, Settle None] (snd (dispose (ready_at 0)))))
   \<and> map (map_option disposeCalls)
        (nodes (engine (calls [Init, Settle None] (snd (dispose (ready_at 0))))))
     = [Some 0, Some 0, Some 0, Some 0, Some 0, Some 0, Some 0, Some 0, Some 0, Some 0]
   \<and> fst (triggerPad Kick None (calls [Init, Settle None] (snd (dispose (ready_at 0)))))
       = Inr \<lparr>trigger_tick = Fin 0, scheduledAt = Fin 0\<rparr>
   \<and> initialized (engine (calls [Init, Dispose, Settle None] new_world))"
  by (simp add: dispose_def init_call_def init_settled_def init_body_def nodes_def
      node_dispose_def triggerPad_ready)
    (simp add: world_defs Time_16n_def double_eval)

text \<open>
  C5, as amended. \<open>dispose\<close> returns without error, clears the flag and calls \<open>dispose()\<close>
  once on each audio node the engine holds; it cancels nothing. The transport, with every
  pending \<open>scheduleOnce\<close> callback, and every part built by \<open>createClip\<close> are exactly as
  before, so a callback that was pending is still pending after \<open>dispose\<close>, and when it runs
  it calls \<open>playInstrument\<close> on the disposed engine.
\<close>

theorem dispose_frame:
  assumes "ev \<in> set (scheduleOnce (transport w))"
  shows "fst (dispose w) = Inr ()
       \<and> \<not> initialized (engine (snd (dispose w)))
       \<and> map (map_option disposeCalls) (nodes (engine (snd (dispose w))))
           = map (map_option (\<lambda>n. Suc (disposeCalls n))) (nodes (engine w))
       \<and> transport (snd (dispose w)) = transport w
       \<and> parts (snd (dispose w)) = parts w
       \<and> ev \<in> set (scheduleOnce (transport (snd (dispose w))))
       \<and> engine (fire_once ev (snd (dispose w)))
           = playInstrument (fst (snd ev)) (fst ev) (snd (snd ev)) (engine (snd (dispose w)))"
proof -
  have "map (map_option disposeCalls) (nodes (engine (snd (dispose w))))
           = map (map_option (\<lambda>n. Suc (disposeCalls n))) (nodes (engine w))"
    by (simp add: nodes_dispose disposeCalls_node_dispose comp_def)
  moreover have "transport (snd (dispose w)) = transport w" "parts (snd (dispose w)) = parts w"
    "fst (dispose w) = Inr ()" "\<not> initialized (engine (snd (dispose w)))"
    by (simp_all add: dispose_def)
  moreover have "engine (fire_once ev (snd (dispose w)))
           = playInstrument (fst (snd ev)) (fst ev) (snd (snd ev)) (engine (snd (dispose w)))"
    using assms by (simp add: fire_once_def dispose_def split: prod.splits)
  ultimately show ?thesis using assms by simp
qed

theorem dispose_frame_witness:
  "(Fin sixteenth_104, Kick, Fin 1)
     \<in> set (scheduleOnce (transport (snd (triggerPad Kick None (ready_at (1 / 8))))))
   \<and> transport (snd (dispose (snd (triggerPad Kick None (ready_at (1 / 8))))))
       = transport (snd (triggerPad Kick None (ready_at (1 / 8))))
   \<and> (Fin sixteenth_104, Kick, Fin 1) \<in> set (scheduleOnce (transport
         (snd (dispose (snd (triggerPad Kick None (ready_at (1 / 8))))))))"
proof -
  have h: "(Fin sixteenth_104, Kick, Fin 1)
      \<in> set (scheduleOnce (transport (snd (triggerPad Kick None (ready_at (1 / 8))))))"
    by (simp add: triggerPad_ready ready_at_simps ready_at_Time nextTickSeconds_eighth)
  from dispose_frame [OF h] h show ?thesis by blast
qed

text \<open>
  C5 as stated fails: at 104 bpm a pad is triggered at 0.125 s (aligned to
  0.14423076923076922 s, which has not arrived) and a clip is started; after \<open>dispose\<close>
  the one-shot is still registered and the part has received neither \<open>stop\<close> nor
  \<open>dispose\<close>; when the one-shot runs, the kick synth receives \<open>triggerAttackRelease\<close>.
\<close>

theorem dispose_pending_counterexample:
  "scheduleOnce (transport (snd (dispose (snd (createClip example_ref
      (snd (triggerPad Kick None (ready_at (1 / 8))))))))) = [(Fin sixteenth_104, Kick, Fin 1)]
   \<and> (1::real) / 8 < sixteenth_104
   \<and> map stopCalls (parts (snd (dispose (snd (createClip example_ref
      (snd (triggerPad Kick None (ready_at (1 / 8))))))))) = [0]
   \<and> map part_disposeCalls (parts (snd (dispose (snd (createClip example_ref
      (snd (triggerPad Kick None (ready_at (1 / 8))))))))) = [0]
   \<and> map_option triggerAttackRelease (kick (engine (fire_once (Fin sixteenth_104, Kick, Fin 1)
        (snd (dispose (snd (createClip example_ref
          (snd (triggerPad Kick None (ready_at (1 / 8)))))))))))
      = Some [(Some ''C1'', ''8n'', Fin sixteenth_104, Fin 1)]"
proof -
  have t: "snd (triggerPad Kick None (ready_at (1 / 8))) =
      (ready_at (1 / 8))\<lparr>transport := (transport (ready_at (1 / 8)))
          \<lparr>scheduleOnce := [(Fin sixteenth_104, Kick, Fin 1)]\<rparr>\<rparr>"
    by (simp add: triggerPad_ready ready_at_simps ready_at_Time nextTickSeconds_eighth)
  have s: "(1::real) / 8 < sixteenth_104" by (simp add: sixteenth_104_def)
  show ?thesis
    unfolding t using s
    by (simp add: createClip_ready ready_at_simps dispose_def fire_once_def node_trigger_def)
      (simp add: world_defs node_dispose_def)
qed


text \<open>
  C7, at the input where the code departs from it. For a stored clip whose event has the
  tick \<open>-1\<close>, \<open>createClip\<close> at 104 bpm does not reject the event; \<open>-1 % 16\<close> is \<open>-1\<close>, and the
  pair is scheduled at \<open>-0.14423076923076922\<close> s, before the start of the measure. The
  pad component's own normalisation, \<open>Math.abs(tick % 16)\<close>, maps the same tick to 1.
\<close>

theorem createClip_negative_tick:
  "fst (createClip negative_ref (ready_at 0)) = Inr example_handle
   \<and> clips (snd (createClip negative_ref (ready_at 0))) example_handle
       = LoopClip.extend negative_clip \<lparr>part = Some 0\<rparr>
   \<and> map part_events (parts (snd (createClip negative_ref (ready_at 0)))) =
       [[(Fin (- sixteenth_104), \<lparr>tick = Fin (- 1), padId = Kick, velocity = Fin 1\<rparr>)]]
   \<and> js_rem (Fin (- 1)) GRID_RESOLUTION = Fin (- 1)
   \<and> \<not> js_le (Fin 0)
        (js_mul (js_div (js_rem (Fin (- 1)) GRID_RESOLUTION) GRID_RESOLUTION)
           (Time_1m (transport (ready_at 0))))
   \<and> handleSaveClip_tick (Fin (- 1)) = Fin 1"
proof -
  have c: "\<lceil>- ((1::real) / 16)\<rceil> = 0" by (simp add: ceiling_minus)
  have r: "js_rem (Fin (- 1)) (Fin 16) = Fin (- 1)" by (simp add: rem_real_def js_trunc_def c)
  have o: "js_mul (js_div (Fin (- 1)) (Fin 16)) (Fin measure_104) = Fin (- sixteenth_104)"
    by (simp add: double_eval measure_104_def sixteenth_104_def)
  have m: "0 < sixteenth_104" by (simp add: sixteenth_104_def)
  have 1: "fst (createClip negative_ref (ready_at 0)) = Inr example_handle"
    by (simp add: created_negative)
  have 2: "clips (snd (createClip negative_ref (ready_at 0))) example_handle
       = LoopClip.extend negative_clip \<lparr>part = Some 0\<rparr>"
    by (simp add: created_negative) (simp add: library_def negative_ref_def LoopClip.extend_def)
  have 3: "map part_events (parts (snd (createClip negative_ref (ready_at 0)))) =
       [[(Fin (- sixteenth_104), \<lparr>tick = Fin (- 1), padId = Kick, velocity = Fin 1\<rparr>)]]"
    by (simp add: created_negative scheduled_negative)
  have 4: "js_rem (Fin (- 1)) GRID_RESOLUTION = Fin (- 1)"
    unfolding GRID_RESOLUTION_def by (rule r)
  have 5: "\<not> js_le (Fin 0)
        (js_mul (js_div (js_rem (Fin (- 1)) GRID_RESOLUTION) GRID_RESOLUTION)
           (Time_1m (transport (ready_at 0))))"
    unfolding GRID_RESOLUTION_def r ready_at_Time o using m by simp
  have 6: "handleSaveClip_tick (Fin (- 1)) = Fin 1"
    unfolding handleSaveClip_tick_def r by simp
  from 1 2 3 4 5 6 show ?thesis by blast
qed

text \<open>
  C8, as amended. \<open>stopClip\<close> and \<open>dispose\<close> never throw, whether repeated or called after
  the engine was disposed, since neither checks readiness; after a second \<open>dispose\<close> the
  engine is still not initialised and the same nodes count as disposed. The release is
  not guarded, though: nothing is set to null, so every \<open>dispose\<close> calls \<open>dispose()\<close> again
  on each node the engine holds, and every \<open>stopClip\<close> calls \<open>stop()\<close> and \<open>dispose()\<close> again
  on the part of the handle.
\<close>

theorem release_repeated:
  assumes "part (clips w a) = Some i" and "i < length (parts w)"
  shows "fst (stopClip a w) = Inr ()
       \<and> fst (stopClip a (snd (stopClip a w))) = Inr ()
       \<and> fst (stopClip a (snd (dispose w))) = Inr ()
       \<and> fst (dispose w) = Inr ()
       \<and> fst (dispose (snd (dispose w))) = Inr ()
       \<and> \<not> initialized (engine (snd (dispose (snd (dispose w)))))
       \<and> map (map_option (\<lambda>n. 0 < disposeCalls n)) (nodes (engine (snd (dispose (snd (dispose w))))))
           = map (map_option (\<lambda>n. 0 < disposeCalls n)) (nodes (engine (snd (dispose w))))
       \<and> map (map_option disposeCalls) (nodes (engine (snd (dispose (snd (dispose w))))))
           = map (map_option (\<lambda>n. disposeCalls n + 2)) (nodes (engine w))
       \<and> stopCalls (parts (snd (stopClip a (snd (stopClip a w)))) ! i) = stopCalls (parts w ! i) + 2
       \<and> part_disposeCalls (parts (snd (stopClip a (snd (stopClip a w)))) ! i)
           = part_disposeCalls (parts w ! i) + 2
       \<and> stopCalls (parts (snd (stopClip a (snd (dispose w)))) ! i) = stopCalls (parts w ! i) + 1
       \<and> part_disposeCalls (parts (snd (stopClip a (snd (dispose w)))) ! i)
           = part_disposeCalls (parts w ! i) + 1"
proof -
  have d: "map (map_option (\<lambda>n. 0 < disposeCalls n)) (nodes (engine (snd (dispose (snd (dispose w))))))
           = map (map_option (\<lambda>n. 0 < disposeCalls n)) (nodes (engine (snd (dispose w))))"
    "map (map_option disposeCalls) (nodes (engine (snd (dispose (snd (dispose w))))))
           = map (map_option (\<lambda>n. disposeCalls n + 2)) (nodes (engine w))"
    by (simp_all add: nodes_dispose option.map_comp comp_def node_dispose_def)
  have s: "stopCalls (parts (snd (stopClip a (snd (stopClip a w)))) ! i) = stopCalls (parts w ! i) + 2"
    "part_disposeCalls (parts (snd (stopClip a (snd (stopClip a w)))) ! i)
           = part_disposeCalls (parts w ! i) + 2"
    using assms by (simp_all add: stopClip_at part_stop_dispose_def)
  have p: "parts (snd (dispose w)) = parts w" "clips (snd (dispose w)) = clips w"
    by (simp_all add: dispose_def)
  have sd: "stopCalls (parts (snd (stopClip a (snd (dispose w)))) ! i) = stopCalls (parts w ! i) + 1"
    "part_disposeCalls (parts (snd (stopClip a (snd (dispose w)))) ! i)
           = part_disposeCalls (parts w ! i) + 1"
    using assms by (simp_all add: stopClip_at p part_stop_dispose_def)
  have e: "fst (dispose w) = Inr ()" "fst (dispose (snd (dispose w))) = Inr ()"
    "\<not> initialized (engine (snd (dispose (snd (dispose w)))))"
    by (simp_all add: dispose_def)
  show ?thesis using d s sd e by (simp add: stopClip_frame)
qed

theorem release_repeated_witness:
  "part (clips (snd (createClip example_ref (ready_at 0))) example_handle) = Some 0
   \<and> 0 < length (parts (snd (createClip example_ref (ready_at 0))))
   \<and> fst (stopClip example_handle (snd (stopClip example_handle
        (snd (createClip example_ref (ready_at 0)))))) = Inr ()
   \<and> part_disposeCalls (parts (snd (stopClip example_handle (snd (stopClip example_handle
        (snd (createClip example_ref (ready_at 0))))))) ! 0)
       = part_disposeCalls (parts (snd (createClip example_ref (ready_at 0))) ! 0) + 2"
proof -
  have h: "part (clips (snd (createClip example_ref (ready_at 0))) example_handle) = Some 0"
    "0 < length (parts (snd (createClip example_ref (ready_at 0))))"
    by (simp_all add: created_example)
  from release_repeated [OF h] h show ?thesis by blast
qed

text \<open>
  C8 as stated fails in its last part: stopping the handle of a started clip twice leaves
  its part with two \<open>dispose()\<close> calls, and disposing an initialised engine twice leaves
  the kick synth with two.
\<close>

theorem repeated_release_counterexample:
  "fst (createClip example_ref (ready_at 0)) = Inr example_handle
   \<and> map part_disposeCalls (parts (snd (stopClip example_handle
        (snd (createClip example_ref (ready_at 0)))))) = [1]
   \<and> map part_disposeCalls (parts (snd (stopClip example_handle (snd (stopClip example_handle
        (snd (createClip example_ref (ready_at 0)))))))) = [2]
   \<and> map_option disposeCalls (kick (engine (snd (dispose (ready_at 0))))) = Some 1
   \<and> map_option disposeCalls (kick (engine (snd (dispose (snd (dispose (ready_at 0))))))) = Some 2"
  by (simp add: created_example stopClip_def part_stop_dispose_def)
    (simp add: dispose_def node_dispose_def world_defs)

text \<open>
  C9. \<open>createClip\<close> on a ready engine leaves the stored source clip, and every other
  clip object that existed, exactly as it was; the one object it adds to the store, the
  handle it returns, agrees with the source on \<open>id\<close>, \<open>title\<close>, \<open>author\<close>, \<open>bpm\<close>, \<open>color\<close>,
  \<open>createdAt\<close>, \<open>events\<close>, \<open>likes\<close> and \<open>remixes\<close>, and the events handed to the new part
  are the events of the source. \<open>stopClip\<close> changes no clip object at all, neither the
  handle it is given nor a stored clip.
\<close>

theorem clip_fields_preserved:
  assumes "initialized (engine w)" and "source < next_clip w"
  shows "\<exists>ac. fst (createClip source w) = Inr ac
          \<and> clips (snd (createClip source w)) source = clips w source
          \<and> (\<forall>a. a \<noteq> ac \<longrightarrow> clips (snd (createClip source w)) a = clips w a)
          \<and> ac = next_clip w
          \<and> LoopClip.truncate (clips (snd (createClip source w)) ac)
              = LoopClip.truncate (clips w source)
          \<and> clip_id (clips (snd (createClip source w)) ac) = clip_id (clips w source)
          \<and> title (clips (snd (createClip source w)) ac) = title (clips w source)
          \<and> author (clips (snd (createClip source w)) ac) = author (clips w source)
          \<and> clip_bpm (clips (snd (createClip source w)) ac) = clip_bpm (clips w source)
          \<and> color (clips (snd (createClip source w)) ac) = color (clips w source)
          \<and> createdAt (clips (snd (createClip source w)) ac) = createdAt (clips w source)
          \<and> events (clips (snd (createClip source w)) ac) = events (clips w source)
          \<and> likes (clips (snd (createClip source w)) ac) = likes (clips w source)
          \<and> remixes (clips (snd (createClip source w)) ac) = remixes (clips w source)
          \<and> map snd (part_events (last (parts (snd (createClip source w)))))
              = events (clips w source)
          \<and> clips (snd (stopClip ac (snd (createClip source w))))
              = clips (snd (createClip source w))
          \<and> clips (snd (stopClip a w)) = clips w"
  using assms
  by (simp add: createClip_ready LoopClip.truncate_def stopClip_frame scheduled_def comp_def)

theorem clip_fields_preserved_witness:
  "\<exists>ac. fst (createClip example_ref (ready_at 0)) = Inr ac
      \<and> clips (snd (createClip example_ref (ready_at 0))) example_ref
           = LoopClip.extend example_clip \<lparr>part = None\<rparr>
      \<and> clips (snd (createClip example_ref (ready_at 0))) negative_ref
           = clips (ready_at 0) negative_ref
      \<and> LoopClip.truncate (clips (snd (createClip example_ref (ready_at 0))) ac) = example_clip
      \<and> clips (snd (stopClip ac (snd (createClip example_ref (ready_at 0))))) example_ref
           = LoopClip.extend example_clip \<lparr>part = None\<rparr>"
proof -
  have h: "initialized (engine (ready_at 0))" "example_ref < next_clip (ready_at 0)"
    by (simp_all add: ready_at_simps example_ref_def)
  have c: "clips (ready_at 0) example_ref = LoopClip.extend example_clip \<lparr>part = None\<rparr>"
    "negative_ref \<noteq> next_clip (ready_at 0)"
    by (simp_all add: ready_at_simps library_def example_ref_def negative_ref_def)
  have t: "LoopClip.truncate (LoopClip.extend example_clip \<lparr>part = None\<rparr>) = example_clip"
    by (simp add: LoopClip.truncate_def LoopClip.extend_def example_clip_def)
  from clip_fields_preserved [OF h, of example_handle] c t show ?thesis by auto
qed

text \<open>
  C10. A method that throws because the engine is not initialised leaves the whole world
  as it was: the flag, the stored bpm, every audio node, the transport with its pending
  callbacks, the parts and the clip store.
\<close>

theorem not_ready_atomic:
  assumes "\<not> initialized (engine w)"
  shows "setBpm b w = (Inl EngineNotReady, w)
       \<and> setFilterFrequency f w = (Inl EngineNotReady, w)
       \<and> setReverbWet r w = (Inl EngineNotReady, w)
       \<and> triggerPad p v w = (Inl EngineNotReady, w)
       \<and> createClip c w = (Inl EngineNotReady, w)"
  using assms
  by (simp add: setBpm_def setFilterFrequency_def setReverbWet_def triggerPad_def createClip_def
      ensureReady_def)

theorem not_ready_atomic_witness:
  "\<not> initialized (engine new_world)
   \<and> setBpm (Fin 120) new_world = (Inl EngineNotReady, new_world)
   \<and> setFilterFrequency (Fin 800) new_world = (Inl EngineNotReady, new_world)
   \<and> setReverbWet (Fin (1 / 2)) new_world = (Inl EngineNotReady, new_world)
   \<and> triggerPad Kick None new_world = (Inl EngineNotReady, new_world)
   \<and> createClip example_ref new_world = (Inl EngineNotReady, new_world)"
proof -
  have h: "\<not> initialized (engine new_world)" by (simp add: new_world_def new_AudioEngine_def)
  from not_ready_atomic [OF h, of "Fin 120" "Fin 800" "Fin (1 / 2)" Kick None example_ref] h
  show ?thesis by blast
qed

end
